theory Spec2Isabelle
  imports Complex_Main "HOL-Library.Multiset" "HOL-Library.Log_Nat"
begin

section \<open>Values of the host language\<close>

text \<open>
  The orchestration class \<open>Poru\<close> is written in TypeScript. Strings are the lists of
  their UTF-8 bytes. A number that the class only reads (a penalty score, \<open>systemLoad\<close>,
  \<open>cores\<close>) is a finite double other than \<open>-0\<close>, given by its exact rational value; the
  difference of two such numbers has the sign of the exact difference. What the class
  computes from them is computed in double arithmetic, see below.
\<close>

type_synonym number = rat

text \<open>A property that holds a string, \<open>null\<close>, or nothing at all.\<close>

datatype jsid = Undefined | Null | Str string

subsection \<open>\<open>Map\<close>: insertion-ordered, one entry per key\<close>

text \<open>
  \<open>set\<close> on a key that is present replaces the value where it stands; a new key goes to
  the end. \<open>values()\<close> iterates in insertion order.
\<close>

definition Map_get :: "'k \<Rightarrow> ('k \<times> 'v) list \<Rightarrow> 'v option" where
  "Map_get k m = map_of m k"

fun Map_set :: "'k \<Rightarrow> 'v \<Rightarrow> ('k \<times> 'v) list \<Rightarrow> ('k \<times> 'v) list" where
  "Map_set k v [] = [(k, v)]"
| "Map_set k v (e # m) = (if fst e = k then (k, v) # m else e # Map_set k v m)"

definition Map_delete :: "'k \<Rightarrow> ('k \<times> 'v) list \<Rightarrow> ('k \<times> 'v) list" where
  "Map_delete k m = filter (\<lambda>e. fst e \<noteq> k) m"

definition Map_values :: "('k \<times> 'v) list \<Rightarrow> 'v list" where
  "Map_values m = map snd m"

definition Map_size :: "('k \<times> 'v) list \<Rightarrow> nat" where
  "Map_size m = length m"

subsection \<open>\<open>Array.prototype.sort\<close> with a comparator\<close>

text \<open>
  The sort is stable (ECMAScript 2019): an element moves in front of another only when
  the comparator says it is smaller. On rationals a comparator \<open>a - b\<close> is consistent, so
  the result does not depend on the engine's algorithm; insertion from the right
  computes it. The comparator stands here by a rational of the sign of its result.
\<close>

fun Array_insert :: "('a \<Rightarrow> 'a \<Rightarrow> number) \<Rightarrow> 'a \<Rightarrow> 'a list \<Rightarrow> 'a list" where
  "Array_insert cmp x [] = [x]"
| "Array_insert cmp x (y # ys) =
     (if cmp x y \<le> 0 then x # y # ys else y # Array_insert cmp x ys)"

definition Array_sort :: "('a \<Rightarrow> 'a \<Rightarrow> number) \<Rightarrow> 'a list \<Rightarrow> 'a list" where
  "Array_sort cmp xs = foldr (Array_insert cmp) xs []"

text \<open>
  A consistent comparison function for the elements of an array (ECMAScript,
  \<open>Array.prototype.sort\<close>), the comparator taken as \<open>sort\<close> sees it: equality by the
  comparator is reflexive, symmetric and transitive, and so are less and greater. Every
  stable sort gives the same result then. For any other comparator the order of the
  result is left to the engine.
\<close>

definition consistent :: "('a \<Rightarrow> 'a \<Rightarrow> number) \<Rightarrow> 'a list \<Rightarrow> bool" where
  "consistent cmp xs \<longleftrightarrow>
     list_all (\<lambda>a. cmp a a = 0 \<and>
       list_all (\<lambda>b. (cmp a b = 0 \<longrightarrow> cmp b a = 0) \<and>
         list_all (\<lambda>c. (cmp a b = 0 \<and> cmp b c = 0 \<longrightarrow> cmp a c = 0)
                       \<and> (cmp a b < 0 \<and> cmp b c < 0 \<longrightarrow> cmp a c < 0)
                       \<and> (0 < cmp a b \<and> 0 < cmp b c \<longrightarrow> 0 < cmp a c)) xs) xs) xs"

subsection \<open>Double arithmetic\<close>

text \<open>
  The result of an arithmetic operation is a double: NaN, an infinity, or a finite value.
  A zero result carries no sign here; no operation below divides by a computed zero, and
  a comparator treats both zeros alike.
\<close>

datatype double = NaN | NegInfinity | Finite rat | Infinity

text \<open>
  Rounding to the nearest binary64 value, ties to even: 53 significant bits, the least
  exponent \<open>-1074\<close> for the subnormal values, an infinity from \<open>2 ^ 1024\<close> on.
  \<open>floor_log2 a\<close> is the exponent of the leading bit of a positive \<open>a\<close>.
\<close>

definition floor_log2 :: "rat \<Rightarrow> int" where
  "floor_log2 a =
     (let k = bitlen (fst (quotient_of a)) - bitlen (snd (quotient_of a))
      in if 2 powi k \<le> a then k else k - 1)"

definition round_half_even :: "rat \<Rightarrow> int" where
  "round_half_even m =
     (let f = \<lfloor>m\<rfloor>; r = m - of_int f
      in if r < 1 / 2 then f else if 1 / 2 < r then f + 1 else if even f then f else f + 1)"

definition fl :: "rat \<Rightarrow> double" where
  "fl q =
     (if q = 0 then Finite 0
      else
        let a = \<bar>q\<bar>;
            e = max (floor_log2 a - 52) (- 1074);
            v = of_int (round_half_even (a / 2 powi e)) * 2 powi e
        in if 2 ^ 1024 \<le> v then (if q < 0 then NegInfinity else Infinity)
           else Finite (sgn q * v))"

text \<open>\<open>x / y\<close> of two numbers the class reads.\<close>

definition Number_divide :: "number \<Rightarrow> number \<Rightarrow> double" where
  "Number_divide x y =
     (if y = 0 then (if x = 0 then NaN else if 0 < x then Infinity else NegInfinity)
      else fl (x / y))"

text \<open>\<open>x * y\<close> of a computed double and a number literal.\<close>

fun Number_multiply :: "double \<Rightarrow> number \<Rightarrow> double" where
  "Number_multiply NaN _ = NaN"
| "Number_multiply Infinity y = (if y = 0 then NaN else if 0 < y then Infinity else NegInfinity)"
| "Number_multiply NegInfinity y = (if y = 0 then NaN else if 0 < y then NegInfinity else Infinity)"
| "Number_multiply (Finite a) y = fl (a * y)"

text \<open>\<open>x - y\<close> of two computed doubles.\<close>

fun Number_subtract :: "double \<Rightarrow> double \<Rightarrow> double" where
  "Number_subtract NaN _ = NaN"
| "Number_subtract _ NaN = NaN"
| "Number_subtract Infinity Infinity = NaN"
| "Number_subtract NegInfinity NegInfinity = NaN"
| "Number_subtract Infinity _ = Infinity"
| "Number_subtract NegInfinity _ = NegInfinity"
| "Number_subtract _ Infinity = NegInfinity"
| "Number_subtract _ NegInfinity = Infinity"
| "Number_subtract (Finite a) (Finite b) = fl (a - b)"

text \<open>
  What \<open>sort\<close> makes of a comparator's result (the abstract operation SortCompare): NaN
  counts as \<open>+0\<close>, and only the sign matters.
\<close>

fun SortCompare :: "double \<Rightarrow> number" where
  "SortCompare NaN = 0"
| "SortCompare NegInfinity = - 1"
| "SortCompare (Finite v) = v"
| "SortCompare Infinity = 1"

subsection \<open>\<open>encodeURIComponent\<close>\<close>

text \<open>
  Every byte that is not an unreserved character (letters, digits and
  \<open>- _ . ! ~ * ' ( )\<close>) becomes \<open>%\<close> and two upper-case hexadecimal digits.
\<close>

definition unreserved :: "char \<Rightarrow> bool" where
  "unreserved c \<longleftrightarrow>
     c \<in> set (''ABCDEFGHIJKLMNOPQRSTUVWXYZabcdefghijklmnopqrstuvwxyz0123456789-_.!~*()'' @ [CHR 0x27])"

definition hexDigit :: "nat \<Rightarrow> char" where
  "hexDigit n = ''0123456789ABCDEF'' ! (n mod 16)"

definition encodeURIComponent :: "string \<Rightarrow> string" where
  "encodeURIComponent s =
     concat (map (\<lambda>c. if unreserved c then [c]
                       else [CHR ''%'', hexDigit (of_char c div 16), hexDigit (of_char c mod 16)]) s)"

section \<open>Data model\<close>

record NodeGroup =
  name :: string
  host :: string
  port :: nat
  password :: string
  secure :: "bool option"
  region :: "string list option"

text \<open>
  Of \<open>PoruOptions\<close> the fields this class reads. A plugin and a caller-supplied send
  function are opaque to this class and stand here by a label; \<open>customPlayer\<close> says
  whether a Player constructor was configured.
\<close>

record PoruOptions =
  plugins :: "string list option"
  customPlayer :: bool
  library :: "string option"
  send :: "string option"

record ConnectionOptions =
  guildId :: string
  voiceChannel :: string
  textChannel :: string
  deaf :: bool
  mute :: bool
  region :: "string option"

record ResolveOptions =
  query :: string
  source :: "string option"
  requester :: "string option"

text \<open>
  Modelled from the spec: the Node class is not among the sources. A Node Handle wraps a
  descriptor and exposes a connectivity flag, a region list, a load-statistics snapshot
  (cpu: systemLoad, cores) and a scalar penalty score. \<open>cpu\<close> is \<open>None\<close> when
  \<open>stats.cpu\<close> is absent.
\<close>

record CpuStats =
  systemLoad :: number
  cores :: number

record Stats =
  cpu :: "CpuStats option"

record Node =
  name :: string
  isConnected :: bool
  regions :: "string list option"
  stats :: Stats
  penalties :: number

definition Node_new :: "NodeGroup \<Rightarrow> Node" where
  "Node_new g =
     \<lparr>name = NodeGroup.name g, isConnected = False, regions = NodeGroup.region g,
      stats = \<lparr>cpu = None\<rparr>, penalties = 0\<rparr>"

text \<open>
  Modelled from the spec: the Player class is not among the sources. A Player is bound to
  one Node and carries the options it was created from. \<open>ident\<close> is the identity of the
  object: the number of Players constructed before it. \<open>custom\<close> tells which constructor
  built it.
\<close>

record Player =
  ident :: nat
  boundNode :: Node
  connectionOptions :: ConnectionOptions
  custom :: bool

definition Player_new :: "bool \<Rightarrow> nat \<Rightarrow> Node \<Rightarrow> ConnectionOptions \<Rightarrow> Player" where
  "Player_new cust i n opts = \<lparr>ident = i, boundNode = n, connectionOptions = opts, custom = cust\<rparr>"

text \<open>
  Modelled from the spec: the Response class is not among the sources. It wraps the raw
  result of the load-tracks request together with the requester.
\<close>

record Response =
  loaded :: string
  requestedBy :: "string option"

text \<open>
  A gateway packet is untyped in the source. \<open>t\<close> is \<open>None\<close> for a packet without a
  kind (a heartbeat acknowledgement), \<open>d\<close> is \<open>None\<close> for a packet without data.
\<close>

record PacketData =
  guild_id :: jsid
  user_id :: jsid
  payload :: string

record Packet =
  t :: "string option"
  d :: "PacketData option"

text \<open>The host client: \<open>user\<close> is \<open>client.user.id\<close>, \<open>None\<close> while \<open>client.user\<close> is null.\<close>

record Client =
  user :: "string option"

text \<open>The function held in \<open>this.send\<close>: one of the three adapters' closures, or the caller's.\<close>

datatype sender = Discord_js_send | Eris_send | Oceanic_send | Caller_send string

text \<open>
  The fields of the class. \<open>nodeGroups\<close> is the private \<open>_nodes\<close>; \<open>constructed\<close>
  counts the Player objects built so far and gives each its identity.
\<close>

record Poru =
  client :: Client
  nodeGroups :: "NodeGroup list"
  options :: PoruOptions
  nodes :: "(string \<times> Node) list"
  players :: "(string \<times> Player) list"
  userId :: jsid
  isActivated :: bool
  send :: "sender option"
  constructed :: nat

datatype error =
    NotActivated          \<comment> \<open>You have to init poru in your ready event\<close>
  | NodeRegistryEmpty     \<comment> \<open>No nodes available currently\<close>
  | NodeNotFound          \<comment> \<open>The node identifier you provided is not found\<close>
  | NoNodesAvailable      \<comment> \<open>[Poru Error] No nodes are available\<close>
  | MissingSendFunction   \<comment> \<open>Send function is required in Poru Options\<close>
  | TypeError string      \<comment> \<open>a property read on undefined or null; the property\<close>
  | External string       \<comment> \<open>raised by a collaborator\<close>

type_synonym 'a result = "(error + 'a) \<times> Poru"

subsection \<open>Collaborators\<close>

text \<open>
  Node, Player, Connection, plugins, the REST accessor and the host client live outside
  this class. Each holds a reference to the Poru instance, so a call into one of them is
  any function of the instance's state that returns or throws. The record also holds
  the two answers of the JavaScript engine that this theory does not compute: the lower
  case of a string with bytes outside ASCII, and the order \<open>sort\<close> gives an array for
  which its comparator is not consistent.
\<close>

type_synonym 'r ext = "Poru \<Rightarrow> (string + 'r) \<times> Poru"

record Collaborators =
  Node_connect :: "Node \<Rightarrow> unit ext"
  Node_disconnect :: "Node \<Rightarrow> unit ext"
  Plugin_load :: "string \<Rightarrow> unit ext"
  Client_on :: "string \<Rightarrow> unit ext"
  Player_connect :: "Player \<Rightarrow> ConnectionOptions \<Rightarrow> unit ext"
  Player_destroy :: "Player \<Rightarrow> unit ext"
  setServersUpdate :: "Player \<Rightarrow> PacketData \<Rightarrow> unit ext"
  setStateUpdate :: "Player \<Rightarrow> PacketData \<Rightarrow> unit ext"
  rest_get :: "Node \<Rightarrow> string \<Rightarrow> string ext"
  rest_post :: "Node \<Rightarrow> string \<Rightarrow> string list \<Rightarrow> string ext"
  toLowerCase_unicode :: "string \<Rightarrow> string"
  sort_inconsistent :: "(Node \<Rightarrow> Node \<Rightarrow> number) \<Rightarrow> Node list \<Rightarrow> Node list"

definition call :: "'r ext \<Rightarrow> Poru \<Rightarrow> 'r result" where
  "call f s = (case f s of (Inl msg, s') \<Rightarrow> (Inl (External msg), s') | (Inr r, s') \<Rightarrow> (Inr r, s'))"

text \<open>Sequencing: an exception ends the method with the state reached so far.\<close>

definition then_do :: "'a result \<Rightarrow> ('a \<Rightarrow> Poru \<Rightarrow> 'b result) \<Rightarrow> 'b result" where
  "then_do r f = (case r of (Inl e, s) \<Rightarrow> (Inl e, s) | (Inr a, s) \<Rightarrow> f a s)"

subsection \<open>The engine\<close>

text \<open>
  \<open>String.prototype.toLowerCase\<close>: on a string of ASCII bytes the letters \<open>A-Z\<close> become
  \<open>a-z\<close> and nothing else changes; any other string is the engine's to lower-case.
\<close>

definition toLowerCase :: "Collaborators \<Rightarrow> string \<Rightarrow> string" where
  "toLowerCase env s =
     (if list_all (\<lambda>c. (of_char c :: nat) < 128) s
      then map (\<lambda>c. case map_of (zip ''ABCDEFGHIJKLMNOPQRSTUVWXYZ''
                                        ''abcdefghijklmnopqrstuvwxyz'') c of
                         None \<Rightarrow> c
                       | Some l \<Rightarrow> l) s
      else toLowerCase_unicode env s)"

text \<open>
  \<open>Array.prototype.sort\<close> of an array of nodes with a comparator whose result is a
  computed double.
\<close>

definition Array_sort_nodes ::
  "Collaborators \<Rightarrow> (Node \<Rightarrow> Node \<Rightarrow> double) \<Rightarrow> Node list \<Rightarrow> Node list" where
  "Array_sort_nodes env comparefn xs =
     (let cmp = (\<lambda>a b. SortCompare (comparefn a b))
      in if consistent cmp xs then Array_sort cmp xs else sort_inconsistent env cmp xs)"

section \<open>The class\<close>

definition constructor :: "Client \<Rightarrow> NodeGroup list \<Rightarrow> PoruOptions \<Rightarrow> Poru" where
  "constructor c groups opts =
     \<lparr>client = c, nodeGroups = groups, options = opts, nodes = [], players = [],
      userId = Null, isActivated = False, send = None, constructed = 0\<rparr>"

subsection \<open>Node registry and selection\<close>

definition addNode :: "Collaborators \<Rightarrow> NodeGroup \<Rightarrow> Poru \<Rightarrow> Node result" where
  "addNode env descr s =
     (let node = Node_new descr;
          s1 = s\<lparr>nodes := Map_set (NodeGroup.name descr) node (nodes s)\<rparr>
      in then_do (call (Node_connect env node) s1) (\<lambda>_ s2. (Inr node, s2)))"

definition removeNode :: "Collaborators \<Rightarrow> string \<Rightarrow> Poru \<Rightarrow> unit result" where
  "removeNode env identifier s =
     (case Map_get identifier (nodes s) of
        None \<Rightarrow> (Inr (), s)
      | Some node \<Rightarrow>
          then_do (call (Node_disconnect env node) s)
            (\<lambda>_ s1. (Inr (), s1\<lparr>nodes := Map_delete identifier (nodes s1)\<rparr>)))"

definition getNodeByRegion :: "Collaborators \<Rightarrow> string \<Rightarrow> Poru \<Rightarrow> Node list" where
  "getNodeByRegion env reg s =
     Array_sort_nodes env
       (\<lambda>a b.
          let aLoad = (case cpu (stats a) of
                         Some c \<Rightarrow> Number_multiply (Number_divide (systemLoad c) (cores c)) 100
                       | None \<Rightarrow> Finite 0);
              bLoad = (case cpu (stats b) of
                         Some c \<Rightarrow> Number_multiply (Number_divide (systemLoad c) (cores c)) 100
                       | None \<Rightarrow> Finite 0)
          in Number_subtract aLoad bLoad)
       (filter
          (\<lambda>node. isConnected node \<and>
             (case regions node of
                None \<Rightarrow> False
              | Some rs \<Rightarrow> toLowerCase env reg \<in> set rs))
          (Map_values (nodes s)))"

definition leastUsedNodes :: "Poru \<Rightarrow> Node list" where
  "leastUsedNodes s =
     Array_sort (\<lambda>a b. penalties a - penalties b)
       (filter (\<lambda>node. isConnected node) (Map_values (nodes s)))"

text \<open>What \<open>getNode\<close> hands back: the array of \<open>leastUsedNodes\<close>, or one Node.\<close>

datatype getNode_result = Nodes "Node list" | One Node

definition getNode :: "Collaborators \<Rightarrow> string option \<Rightarrow> Poru \<Rightarrow> getNode_result result" where
  "getNode env ident_arg s =
     (let identifier = (case ident_arg of None \<Rightarrow> ''auto'' | Some i \<Rightarrow> i) in
      if Map_size (nodes s) = 0 then (Inl NodeRegistryEmpty, s)
      else if identifier = ''auto'' then (Inr (Nodes (leastUsedNodes s)), s)
      else (case Map_get identifier (nodes s) of
              None \<Rightarrow> (Inl NodeNotFound, s)
            | Some node \<Rightarrow>
                if \<not> isConnected node
                then then_do (call (Node_connect env node) s) (\<lambda>_ s1. (Inr (One node), s1))
                else (Inr (One node), s)))"

subsection \<open>Player registry\<close>

definition createPlayer :: "Collaborators \<Rightarrow> Node \<Rightarrow> ConnectionOptions \<Rightarrow> Poru \<Rightarrow> Player result" where
  "createPlayer env n opts s =
     (let player = (if customPlayer (options s)
                    then Player_new True (constructed s) n opts
                    else Player_new False (constructed s) n opts);
          s1 = s\<lparr>constructed := Suc (constructed s)\<rparr>;
          s2 = s1\<lparr>players := Map_set (guildId opts) player (players s1)\<rparr>
      in then_do (call (Player_connect env player opts) s2) (\<lambda>_ s3. (Inr player, s3)))"

definition createConnection :: "Collaborators \<Rightarrow> ConnectionOptions \<Rightarrow> Poru \<Rightarrow> Player result" where
  "createConnection env opts s =
     (if \<not> isActivated s then (Inl NotActivated, s)
      else case Map_get (guildId opts) (players s) of
        Some player \<Rightarrow> (Inr player, s)
      | None \<Rightarrow>
          if length (leastUsedNodes s) = 0 then (Inl NoNodesAvailable, s)
          else
            (case (if region opts \<noteq> None \<and> region opts \<noteq> Some []
                   then (case getNodeByRegion env (the (region opts)) s of
                           [] \<Rightarrow> Inl (TypeError ''name'')
                         | r0 # _ \<Rightarrow>
                             if name r0 \<noteq> [] then Inr (Map_get (name r0) (nodes s))
                             else (case leastUsedNodes s of
                                     [] \<Rightarrow> Inl (TypeError ''name'')
                                   | l0 # _ \<Rightarrow> Inr (Map_get (name l0) (nodes s))))
                   else (case leastUsedNodes s of
                           [] \<Rightarrow> Inl (TypeError ''name'')
                         | l0 # _ \<Rightarrow> Inr (Map_get (name l0) (nodes s)))) of
               Inl e \<Rightarrow> (Inl e, s)
             | Inr None \<Rightarrow> (Inl NoNodesAvailable, s)
             | Inr (Some n) \<Rightarrow> createPlayer env n opts s))"

definition removeConnection :: "Collaborators \<Rightarrow> string \<Rightarrow> Poru \<Rightarrow> unit result" where
  "removeConnection env g s =
     (case Map_get g (players s) of
        None \<Rightarrow> (Inr (), s)
      | Some player \<Rightarrow> call (Player_destroy env player) s)"

definition get :: "string \<Rightarrow> Poru \<Rightarrow> Player option" where
  "get g s = Map_get g (players s)"

subsection \<open>Packet routing\<close>

definition packetUpdate :: "Collaborators \<Rightarrow> Packet \<Rightarrow> Poru \<Rightarrow> unit result" where
  "packetUpdate env packet s =
     (if \<not> (t packet = Some ''VOICE_STATE_UPDATE'' \<or> t packet = Some ''VOICE_SERVER_UPDATE'')
      then (Inr (), s)
      else case d packet of
        None \<Rightarrow> (Inl (TypeError ''guild_id''), s)
      | Some pd \<Rightarrow>
          (case (case guild_id pd of Str g \<Rightarrow> Map_get g (players s) | _ \<Rightarrow> None) of
             None \<Rightarrow> (Inr (), s)
           | Some player \<Rightarrow>
               then_do
                 (if t packet = Some ''VOICE_SERVER_UPDATE''
                  then call (setServersUpdate env player pd) s
                  else (Inr (), s))
                 (\<lambda>_ s1.
                    if t packet = Some ''VOICE_STATE_UPDATE''
                    then (if user_id pd \<noteq> userId s1 then (Inr (), s1)
                          else call (setStateUpdate env player pd) s1)
                    else (Inr (), s1))))"

subsection \<open>Resolve and decode\<close>

text \<open>The regular expression \<open>/^https?:\/\//\<close>.\<close>

definition regex_test :: "string \<Rightarrow> bool" where
  "regex_test q \<longleftrightarrow> take 7 q = ''http://'' \<or> take 8 q = ''https://''"

definition resolve ::
  "Collaborators \<Rightarrow> ResolveOptions \<Rightarrow> Node option \<Rightarrow> Poru \<Rightarrow> Response result" where
  "resolve env ropts node_arg s =
     (if \<not> isActivated s then (Inl NotActivated, s)
      else case (case node_arg of
                   Some n \<Rightarrow> Some n
                 | None \<Rightarrow> (case leastUsedNodes s of [] \<Rightarrow> None | l0 # _ \<Rightarrow> Some l0)) of
        None \<Rightarrow> (Inl NoNodesAvailable, s)
      | Some n \<Rightarrow>
          if regex_test (query ropts)
          then then_do
                 (call (rest_get env n
                    (''/v3/loadtracks?identifier='' @ encodeURIComponent (query ropts))) s)
                 (\<lambda>response s1.
                    (Inr \<lparr>loaded = response, requestedBy = requester ropts\<rparr>, s1))
          else
            (let track = (case source ropts of
                            None \<Rightarrow> ''ytsearch''
                          | Some src \<Rightarrow> if src = [] then ''ytsearch'' else src)
                         @ '':'' @ query ropts
             in then_do
                  (call (rest_get env n
                     (''/v3/loadtracks?identifier='' @ encodeURIComponent track)) s)
                  (\<lambda>response s1.
                     (Inr \<lparr>loaded = response, requestedBy = requester ropts\<rparr>, s1))))"

definition decodeTrack :: "Collaborators \<Rightarrow> string \<Rightarrow> Node option \<Rightarrow> Poru \<Rightarrow> string result" where
  "decodeTrack env track node_arg s =
     (case (case node_arg of
              Some n \<Rightarrow> Some n
            | None \<Rightarrow> (case leastUsedNodes s of [] \<Rightarrow> None | l0 # _ \<Rightarrow> Some l0)) of
        None \<Rightarrow> (Inl (TypeError ''rest''), s)
      | Some n \<Rightarrow>
          call (rest_get env n (''/v3/decodetrack?encodedTrack='' @ encodeURIComponent track)) s)"

text \<open>\<open>decodeTracks\<close> takes its node as given; without one, reading \<open>rest\<close> throws.\<close>

definition decodeTracks ::
  "Collaborators \<Rightarrow> string list \<Rightarrow> Node option \<Rightarrow> Poru \<Rightarrow> string result" where
  "decodeTracks env tracks node_arg s =
     (case node_arg of
        None \<Rightarrow> (Inl (TypeError ''rest''), s)
      | Some n \<Rightarrow> call (rest_post env n ''/v3/decodetracks'' tracks) s)"

subsection \<open>Activation\<close>

fun addNodes :: "Collaborators \<Rightarrow> NodeGroup list \<Rightarrow> Poru \<Rightarrow> unit result" where
  "addNodes env [] s = (Inr (), s)"
| "addNodes env (g # gs) s = then_do (addNode env g s) (\<lambda>_ s1. addNodes env gs s1)"

fun loadPlugins :: "Collaborators \<Rightarrow> string list \<Rightarrow> Poru \<Rightarrow> unit result" where
  "loadPlugins env [] s = (Inr (), s)"
| "loadPlugins env (p # ps) s =
     then_do (call (Plugin_load env p) s) (\<lambda>_ s1. loadPlugins env ps s1)"

text \<open>
  \<open>init\<close> returns \<open>this\<close> when the instance is already activated and nothing otherwise;
  the model returns \<open>()\<close> in both cases.
\<close>

definition init :: "Collaborators \<Rightarrow> Client \<Rightarrow> Poru \<Rightarrow> unit result" where
  "init env c s =
     (if isActivated s then (Inr (), s)
      else case user c of
        None \<Rightarrow> (Inl (TypeError ''id''), s)
      | Some uid \<Rightarrow>
          then_do (addNodes env (nodeGroups s) (s\<lparr>userId := Str uid\<rparr>))
            (\<lambda>_ s1.
               then_do
                 (let s2 = s1\<lparr>isActivated := True\<rparr> in
                  case plugins (options s2) of
                    None \<Rightarrow> (Inr (), s2)
                  | Some ps \<Rightarrow> loadPlugins env ps s2)
                 (\<lambda>_ s3.
                    let s4 = (if library (options s3) = None \<or> library (options s3) = Some []
                              then s3\<lparr>options := (options s3)\<lparr>library := Some ''discord.js''\<rparr>\<rparr>
                              else s3);
                        lib = the (library (options s4))
                    in
                      if lib = ''discord.js''
                      then call (Client_on env ''raw'') (s4\<lparr>send := Some Discord_js_send\<rparr>)
                      else if lib = ''eris''
                      then call (Client_on env ''rawWS'') (s4\<lparr>send := Some Eris_send\<rparr>)
                      else if lib = ''oceanic''
                      then call (Client_on env ''packet'') (s4\<lparr>send := Some Oceanic_send\<rparr>)
                      else if lib = ''other''
                      then (if send s4 = None then (Inl MissingSendFunction, s4)
                            else (Inr (),
                                  s4\<lparr>send := map_option Caller_send
                                                 (PoruOptions.send (options s4))\<rparr>))
                      else (Inr (), s4))))"

section \<open>Notions of the specification\<close>

text \<open>
  The load percentage the specification sorts regional matches by:
  \<open>(systemLoad / cores) * 100\<close> in double arithmetic when statistics are available, 0
  otherwise.
\<close>

definition cpuLoadPercent :: "Node \<Rightarrow> double" where
  "cpuLoadPercent n =
     (case cpu (stats n) of
        None \<Rightarrow> Finite 0
      | Some c \<Rightarrow> Number_multiply (Number_divide (systemLoad c) (cores c)) 100)"

text \<open>The order of doubles: NaN is comparable to nothing.\<close>

fun double_le :: "double \<Rightarrow> double \<Rightarrow> bool" where
  "double_le NaN _ = False"
| "double_le _ NaN = False"
| "double_le NegInfinity _ = True"
| "double_le _ Infinity = True"
| "double_le (Finite a) (Finite b) = (a \<le> b)"
| "double_le _ _ = False"

text \<open>A region list contains a region case-insensitively.\<close>

definition contains_ci :: "Collaborators \<Rightarrow> string list option \<Rightarrow> string \<Rightarrow> bool" where
  "contains_ci env rs reg \<longleftrightarrow>
     (case rs of
        None \<Rightarrow> False
      | Some xs \<Rightarrow> toLowerCase env reg \<in> toLowerCase env ` set xs)"

text \<open>The match \<open>getNodeByRegion\<close> filters by: the lower-cased request is an entry of the list.\<close>

definition region_match :: "Collaborators \<Rightarrow> string \<Rightarrow> Node \<Rightarrow> bool" where
  "region_match env reg n \<longleftrightarrow>
     isConnected n \<and>
     (case regions n of None \<Rightarrow> False | Some rs \<Rightarrow> toLowerCase env reg \<in> set rs)"

text \<open>The nodes a request for a region matches, in registry order.\<close>

definition region_matches :: "Collaborators \<Rightarrow> string \<Rightarrow> Poru \<Rightarrow> Node list" where
  "region_matches env reg s = filter (region_match env reg) (Map_values (nodes s))"

text \<open>No matching node has the load percentage NaN.\<close>

definition loads_comparable :: "Collaborators \<Rightarrow> string \<Rightarrow> Poru \<Rightarrow> bool" where
  "loads_comparable env reg s \<longleftrightarrow>
     list_all (\<lambda>n. cpuLoadPercent n \<noteq> NaN) (region_matches env reg s)"

text \<open>Whatever order the engine gives an array, it gives it the same elements.\<close>

definition rearranges :: "Collaborators \<Rightarrow> bool" where
  "rearranges env \<longleftrightarrow> (\<forall>cmp xs. mset (sort_inconsistent env cmp xs) = mset xs)"

text \<open>
  The values binary64 rounding produces are multiples of \<open>2 ^ -1074\<close>; a key of the sort
  is a double other than NaN whose finite value is such a multiple.
\<close>

definition on_grid :: "rat \<Rightarrow> bool" where
  "on_grid v \<longleftrightarrow> (\<exists>k::int. v = of_int k / 2 ^ 1074)"

definition key_ok :: "double \<Rightarrow> bool" where
  "key_ok x \<longleftrightarrow> (case x of NaN \<Rightarrow> False | Finite v \<Rightarrow> on_grid v | _ \<Rightarrow> True)"

text \<open>The comparator \<open>a - b\<close> on the keys of the elements, and the order of the keys.\<close>

definition key_compare :: "('a \<Rightarrow> double) \<Rightarrow> 'a \<Rightarrow> 'a \<Rightarrow> number" where
  "key_compare f a b = SortCompare (Number_subtract (f a) (f b))"

definition key_le :: "('a \<Rightarrow> double) \<Rightarrow> 'a \<Rightarrow> 'a \<Rightarrow> bool" where
  "key_le f a b \<longleftrightarrow> double_le (f a) (f b)"

text \<open>The plugin phase of \<open>init\<close>: every configured plugin is loaded, in order.\<close>

definition load_configured :: "Collaborators \<Rightarrow> Poru \<Rightarrow> unit result" where
  "load_configured env s =
     (case plugins (options s) of None \<Rightarrow> (Inr (), s) | Some ps \<Rightarrow> loadPlugins env ps s)"

text \<open>
  Percent-decoding, the inverse the specification reads a request identifier with:
  \<open>%\<close> and two hexadecimal digits give a byte, any other byte stands for itself.
\<close>

definition hexValue :: "char \<Rightarrow> nat option" where
  "hexValue c = map_of (zip ''0123456789ABCDEFabcdef'' ([0..<16] @ [10..<16])) c"

fun percent_decode :: "string \<Rightarrow> string option" where
  "percent_decode [] = Some []"
| "percent_decode (c # cs) =
     (if c = CHR ''%''
      then (case cs of
              h # l # rest \<Rightarrow>
                (case (hexValue h, hexValue l) of
                   (Some a, Some b) \<Rightarrow>
                     map_option ((#) (char_of (16 * a + b))) (percent_decode rest)
                 | _ \<Rightarrow> None)
            | _ \<Rightarrow> None)
      else map_option ((#) c) (percent_decode cs))"

text \<open>The identifier of a load-tracks request, read back from its path.\<close>

definition loadtracks_identifier :: "string \<Rightarrow> string option" where
  "loadtracks_identifier path =
     (if take (length ''/v3/loadtracks?identifier='') path = ''/v3/loadtracks?identifier=''
      then percent_decode (drop (length ''/v3/loadtracks?identifier='') path)
      else None)"

text \<open>What the specification takes the source keyword to be: \<open>ytsearch\<close> when unset.\<close>

definition source_or_default :: "string option \<Rightarrow> string" where
  "source_or_default src = (case src of None \<Rightarrow> ''ytsearch'' | Some x \<Rightarrow> x)"

text \<open>The source keyword as \<open>resolve\<close> takes it: \<open>ytsearch\<close> when unset or empty.\<close>

definition source_or_ytsearch :: "string option \<Rightarrow> string" where
  "source_or_ytsearch src =
     (case src of None \<Rightarrow> ''ytsearch'' | Some x \<Rightarrow> if x = [] then ''ytsearch'' else x)"

text \<open>The Player registered for a packet's session key, if the key is a string.\<close>

definition packet_player :: "PacketData \<Rightarrow> Poru \<Rightarrow> Player option" where
  "packet_player pd s = (case guild_id pd of Str g \<Rightarrow> get g s | _ \<Rightarrow> None)"

text \<open>The node a resolve call works with: the one supplied, else the first least-used one.\<close>

definition resolve_node :: "Node option \<Rightarrow> Poru \<Rightarrow> Node option" where
  "resolve_node node_arg s =
     (case node_arg of
        Some n \<Rightarrow> Some n
      | None \<Rightarrow> (case leastUsedNodes s of [] \<Rightarrow> None | l0 # _ \<Rightarrow> Some l0))"

text \<open>
  Collaborators that leave the player registry and the activation flag alone, and
  plugins and host client that leave the flag set.
\<close>

definition keeps_registry :: "Collaborators \<Rightarrow> bool" where
  "keeps_registry env \<longleftrightarrow>
     (\<forall>p opts s. players (snd (Player_connect env p opts s)) = players s
                \<and> isActivated (snd (Player_connect env p opts s)) = isActivated s)"

definition keeps_activated :: "Collaborators \<Rightarrow> bool" where
  "keeps_activated env \<longleftrightarrow>
     (\<forall>p s. isActivated s \<longrightarrow> isActivated (snd (Plugin_load env p s))) \<and>
     (\<forall>e s. isActivated s \<longrightarrow> isActivated (snd (Client_on env e s)))"

section \<open>Sample configurations\<close>

text \<open>
  Collaborators that return at once and change nothing; the REST accessor answers a
  request with the request's own path. The engine leaves a string and an array it is
  asked about as they are.
\<close>

definition idle :: Collaborators where
  "idle =
     \<lparr>Node_connect = (\<lambda>_ s. (Inr (), s)),
      Node_disconnect = (\<lambda>_ s. (Inr (), s)),
      Plugin_load = (\<lambda>_ s. (Inr (), s)),
      Client_on = (\<lambda>_ s. (Inr (), s)),
      Player_connect = (\<lambda>_ _ s. (Inr (), s)),
      Player_destroy = (\<lambda>_ s. (Inr (), s)),
      setServersUpdate = (\<lambda>_ _ s. (Inr (), s)),
      setStateUpdate = (\<lambda>_ _ s. (Inr (), s)),
      rest_get = (\<lambda>_ path s. (Inr path, s)),
      rest_post = (\<lambda>_ path _ s. (Inr path, s)),
      toLowerCase_unicode = (\<lambda>str. str),
      sort_inconsistent = (\<lambda>_ xs. xs)\<rparr>"

text \<open>A plugin that refuses to load on an instance that is activated.\<close>

definition probing :: Collaborators where
  "probing =
     idle\<lparr>Plugin_load :=
            (\<lambda>_ s. if isActivated s then (Inl ''loaded on an activated instance'', s)
                    else (Inr (), s))\<rparr>"

definition bot :: Client where
  "bot = \<lparr>user = Some ''bot''\<rparr>"

definition node_us :: Node where
  "node_us =
     \<lparr>name = ''us-1'', isConnected = True, regions = Some [''us''],
      stats = \<lparr>cpu = Some \<lparr>systemLoad = 1, cores = 4\<rparr>\<rparr>, penalties = 3\<rparr>"

definition node_EU :: Node where
  "node_EU =
     \<lparr>name = ''eu-1'', isConnected = True, regions = Some [''EU''],
      stats = \<lparr>cpu = None\<rparr>, penalties = 1\<rparr>"

definition node_eu :: Node where
  "node_eu =
     \<lparr>name = ''eu-2'', isConnected = True, regions = Some [''eu'', ''de''],
      stats = \<lparr>cpu = Some \<lparr>systemLoad = 1, cores = 2\<rparr>\<rparr>, penalties = 5\<rparr>"

text \<open>Three connected nodes of the region \<open>eu\<close>: no cores, three cores, no statistics.\<close>

definition node_stalled :: Node where
  "node_stalled =
     \<lparr>name = ''eu-3'', isConnected = True, regions = Some [''eu''],
      stats = \<lparr>cpu = Some \<lparr>systemLoad = 1, cores = 0\<rparr>\<rparr>, penalties = 0\<rparr>"

definition node_third :: Node where
  "node_third =
     \<lparr>name = ''eu-4'', isConnected = True, regions = Some [''eu''],
      stats = \<lparr>cpu = Some \<lparr>systemLoad = 1, cores = 3\<rparr>\<rparr>, penalties = 0\<rparr>"

definition node_fresh :: Node where
  "node_fresh =
     \<lparr>name = ''eu-5'', isConnected = True, regions = Some [''eu''],
      stats = \<lparr>cpu = None\<rparr>, penalties = 0\<rparr>"

text \<open>Two more: a full load on one core, and statistics of all zeros.\<close>

definition node_busy :: Node where
  "node_busy =
     \<lparr>name = ''eu-6'', isConnected = True, regions = Some [''eu''],
      stats = \<lparr>cpu = Some \<lparr>systemLoad = 1, cores = 1\<rparr>\<rparr>, penalties = 0\<rparr>"

definition node_blank :: Node where
  "node_blank =
     \<lparr>name = ''eu-7'', isConnected = True, regions = Some [''eu''],
      stats = \<lparr>cpu = Some \<lparr>systemLoad = 0, cores = 0\<rparr>\<rparr>, penalties = 0\<rparr>"

definition eu_pool :: "(string \<times> Node) list" where
  "eu_pool =
     [(''eu-3'', node_stalled), (''eu-4'', node_third), (''eu-5'', node_fresh),
      (''us-1'', node_us), (''eu-1'', node_EU)]"

definition plain_options :: PoruOptions where
  "plain_options = \<lparr>plugins = None, customPlayer = False, library = Some ''discord.js'', send = None\<rparr>"

definition other_options :: PoruOptions where
  "other_options =
     \<lparr>plugins = None, customPlayer = False, library = Some ''other'', send = Some ''sendToShard''\<rparr>"

definition other_bare_options :: PoruOptions where
  "other_bare_options =
     \<lparr>plugins = None, customPlayer = False, library = Some ''other'', send = None\<rparr>"

text \<open>Library \<open>other\<close>, no send function, one plugin; and one node to build.\<close>

definition other_plugin_options :: PoruOptions where
  "other_plugin_options =
     \<lparr>plugins = Some [''lyrics''], customPlayer = False, library = Some ''other'', send = None\<rparr>"

definition local_group :: NodeGroup where
  "local_group =
     \<lparr>NodeGroup.name = ''local'', host = ''localhost'', port = 2333, password = ''secret'',
      secure = None, NodeGroup.region = Some [''eu'']\<rparr>"

text \<open>
  The instance constructed from them, and what it is once its identity is read and its
  node is built.
\<close>

definition awaiting :: Poru where
  "awaiting = constructor bot [local_group] other_plugin_options"

definition built :: Poru where
  "built =
     \<lparr>client = bot, nodeGroups = [local_group], options = other_plugin_options,
      nodes = [(''local'', Node_new local_group)], players = [],
      userId = Str ''bot'', isActivated = False, send = None, constructed = 0\<rparr>"

text \<open>An activated instance with the given registered nodes and no players.\<close>

definition running :: "(string \<times> Node) list \<Rightarrow> Poru" where
  "running ns =
     \<lparr>client = bot, nodeGroups = [], options = plain_options, nodes = ns, players = [],
      userId = Str ''bot'', isActivated = True, send = Some Discord_js_send, constructed = 0\<rparr>"

text \<open>The same registry on an instance that was never activated.\<close>

definition standby :: "(string \<times> Node) list \<Rightarrow> Poru" where
  "standby ns =
     \<lparr>client = bot, nodeGroups = [], options = plain_options, nodes = ns, players = [],
      userId = Null, isActivated = False, send = None, constructed = 0\<rparr>"

definition join_eu :: ConnectionOptions where
  "join_eu =
     \<lparr>guildId = ''guild-1'', voiceChannel = ''voice-1'', textChannel = ''text-1'',
      deaf = True, mute = False, region = Some ''eu''\<rparr>"

definition join_any :: ConnectionOptions where
  "join_any =
     \<lparr>guildId = ''guild-1'', voiceChannel = ''voice-1'', textChannel = ''text-1'',
      deaf = True, mute = False, region = None\<rparr>"

text \<open>The instance after \<open>join_any\<close> was served from \<open>running [(''us-1'', node_us)]\<close>.\<close>

definition first_player :: Player where
  "first_player = Player_new False 0 node_us join_any"

definition joined :: Poru where
  "joined =
     \<lparr>client = bot, nodeGroups = [], options = plain_options, nodes = [(''us-1'', node_us)],
      players = [(''guild-1'', first_player)],
      userId = Str ''bot'', isActivated = True, send = Some Discord_js_send, constructed = 1\<rparr>"

definition stranger_moved :: Packet where
  "stranger_moved =
     \<lparr>t = Some ''VOICE_STATE_UPDATE'',
      d = Some \<lparr>guild_id = Str ''guild-1'', user_id = Str ''someone-else'', payload = []\<rparr>\<rparr>"

definition search_request :: ResolveOptions where
  "search_request = \<lparr>query = ''rick astley'', source = Some ''ytsearch'', requester = None\<rparr>"

definition empty_source_request :: ResolveOptions where
  "empty_source_request = \<lparr>query = ''rick astley'', source = Some [], requester = None\<rparr>"

section \<open>Library facts about the builtins\<close>

lemma Map_get_set: "Map_get k (Map_set k v m) = Some v"
  by (induction m) (auto simp: Map_get_def)

lemma Array_insert_key: "Array_insert (\<lambda>a b. f a - f b) x ys = insort_key f x ys"
  by (induction ys) auto

lemma Array_sort_key: "Array_sort (\<lambda>a b. f a - f b) xs = sort_key f xs"
  by (induction xs) (simp_all add: Array_sort_def Array_insert_key)

lemma hexValue_hexDigit_all: "\<forall>n\<in>set [0..<16]. hexValue (hexDigit n) = Some n"
  by code_simp

lemma hexValue_hexDigit: "n < 16 \<Longrightarrow> hexValue (hexDigit n) = Some n"
  using hexValue_hexDigit_all by simp

lemma unreserved_not_percent: "unreserved c \<Longrightarrow> c \<noteq> CHR ''%''"
  by (auto simp: unreserved_def)

lemma percent_decode_escape:
  "percent_decode (CHR ''%'' # hexDigit (of_char c div 16) # hexDigit (of_char c mod 16) # rest)
     = map_option ((#) c) (percent_decode rest)"
proof -
  have "(of_char c :: nat) < 16 * 16" by simp
  then have hi: "(of_char c :: nat) div 16 < 16" by (rule less_mult_imp_div_less)
  have lo: "(of_char c :: nat) mod 16 < 16" by simp
  show ?thesis
    by (simp add: hexValue_hexDigit [OF hi] hexValue_hexDigit [OF lo] del: of_char_mod_256)
qed

lemma percent_decode_encode: "percent_decode (encodeURIComponent s) = Some s"
proof (induction s)
  case Nil
  then show ?case by (simp add: encodeURIComponent_def)
next
  case (Cons c cs)
  have unf: "encodeURIComponent (c # cs) =
      (if unreserved c then [c]
       else [CHR ''%'', hexDigit (of_char c div 16), hexDigit (of_char c mod 16)])
      @ encodeURIComponent cs"
    by (simp add: encodeURIComponent_def)
  show ?case
  proof (cases "unreserved c")
    case True
    with Cons unreserved_not_percent [OF True] show ?thesis
      by (simp add: unf)
  next
    case False
    with Cons show ?thesis
      by (simp only: unf if_False append.simps percent_decode_escape) simp
  qed
qed

lemma loadtracks_identifier_encode:
  "loadtracks_identifier (''/v3/loadtracks?identifier='' @ encodeURIComponent x) = Some x"
  by (simp add: loadtracks_identifier_def percent_decode_encode)

section \<open>Double arithmetic\<close>

lemma round_half_even_ge: "1 \<le> m \<Longrightarrow> 1 \<le> round_half_even m"
proof -
  assume "1 \<le> m"
  then have "1 \<le> \<lfloor>m\<rfloor>" by simp
  then show ?thesis by (simp add: round_half_even_def Let_def)
qed

lemma round_half_even_nonneg: "0 \<le> m \<Longrightarrow> 0 \<le> round_half_even m"
proof -
  assume "0 \<le> m"
  then have "0 \<le> \<lfloor>m\<rfloor>" by simp
  then show ?thesis by (simp add: round_half_even_def Let_def)
qed

lemma powi_grid: "- 1074 \<le> e \<Longrightarrow> (2::rat) powi e = 2 ^ nat (e + 1074) / 2 ^ 1074"
proof -
  assume e: "- 1074 \<le> e"
  have "(2::rat) powi e = 2 powi ((e + 1074) - 1074)" by simp
  also have "\<dots> = 2 powi (e + 1074) / 2 powi 1074"
    by (rule power_int_diff) simp
  also have "\<dots> = 2 ^ nat (e + 1074) / 2 ^ 1074"
    using e by (simp add: power_int_nonneg_exp)
  finally show ?thesis .
qed

lemma floor_log2_weak:
  assumes "0 < a"
  shows "(2::rat) powi (floor_log2 a - 1) < a"
proof -
  define n where "n = fst (quotient_of a)"
  define dd where "dd = snd (quotient_of a)"
  have qa: "quotient_of a = (n, dd)" by (simp add: n_def dd_def)
  then have dd: "0 < dd" by (rule quotient_of_denom_pos)
  from qa have a: "a = of_int n / of_int dd" by (rule quotient_of_div)
  with assms dd have n: "0 < n" by (simp add: zero_less_divide_iff)
  from bitlen_bounds [OF n] have nb: "(2::int) ^ nat (bitlen n - 1) \<le> n" by simp
  from bitlen_bounds [OF dd] have db: "dd < (2::int) ^ nat (bitlen dd)" by simp
  have bn: "1 \<le> bitlen n" using n by (simp add: bitlen_alt_def)
  have bd: "0 \<le> bitlen dd" by (rule bitlen_nonneg)
  have "floor_log2 a \<le> bitlen n - bitlen dd"
    by (simp add: floor_log2_def Let_def n_def dd_def)
  then have "(2::rat) powi (floor_log2 a - 1) \<le> 2 powi (bitlen n - 1 - bitlen dd)"
    by (intro power_int_increasing) simp_all
  also have "\<dots> = 2 powi (bitlen n - 1) / 2 powi (bitlen dd)"
    by (rule power_int_diff) simp
  also have "\<dots> = 2 ^ nat (bitlen n - 1) / 2 ^ nat (bitlen dd)"
    using bn bd by (simp add: power_int_nonneg_exp)
  also have "\<dots> < of_int n / of_int dd"
  proof (rule frac_less2)
    show "(0::rat) < 2 ^ nat (bitlen n - 1)" by simp
    from nb have "(of_int (2 ^ nat (bitlen n - 1)) :: rat) \<le> of_int n"
      by (simp only: of_int_le_iff)
    then show "(2::rat) ^ nat (bitlen n - 1) \<le> of_int n" by simp
    show "(0::rat) < of_int dd" using dd by simp
    from db have "(of_int dd :: rat) < of_int (2 ^ nat (bitlen dd))"
      by (simp only: of_int_less_iff)
    then show "(of_int dd :: rat) < 2 ^ nat (bitlen dd)" by simp
  qed
  finally show ?thesis using a by simp
qed

lemma fl_grid: "fl q = Finite v \<Longrightarrow> on_grid v"
proof -
  assume h: "fl q = Finite v"
  show ?thesis
  proof (cases "q = 0")
    case True
    with h have "v = 0" by (simp add: fl_def)
    then show ?thesis by (auto simp: on_grid_def intro: exI [of _ 0])
  next
    case False
    define e where "e = max (floor_log2 \<bar>q\<bar> - 52) (- 1074)"
    define r where "r = round_half_even (\<bar>q\<bar> / 2 powi e)"
    have e: "- 1074 \<le> e" by (simp add: e_def)
    from h False have v: "v = sgn q * (of_int r * 2 powi e)"
      by (simp add: fl_def Let_def e_def r_def split: if_splits)
    have "sgn q = of_int (sgn \<lfloor>q\<rfloor>) \<or> sgn q = 1 \<or> sgn q = - 1"
      using False by (auto simp: sgn_if)
    then obtain sg :: int where sg: "sgn q = of_int sg"
      using False by (cases "q < 0") (auto simp: sgn_if intro: that [of 1] that [of "- 1"])
    have "v = of_int (sg * r * 2 ^ nat (e + 1074)) / 2 ^ 1074"
      unfolding v sg powi_grid [OF e] by simp
    then show ?thesis unfolding on_grid_def by blast
  qed
qed

lemma fl_pos:
  assumes "1 / 2 ^ 1074 \<le> dd"
  shows "fl dd = Infinity \<or> (\<exists>v. 0 < v \<and> fl dd = Finite v)"
proof -
  have dpos: "0 < dd"
    using assms by (meson less_le_trans zero_less_divide_1_iff zero_less_numeral zero_less_power)
  define e where "e = max (floor_log2 \<bar>dd\<bar> - 52) (- 1074)"
  define r where "r = round_half_even (\<bar>dd\<bar> / 2 powi e)"
  have le: "(2::rat) powi e \<le> dd"
  proof (cases "floor_log2 \<bar>dd\<bar> - 52 \<le> - 1074")
    case True
    then have "e = - 1074" by (simp add: e_def)
    with assms show ?thesis by (simp add: power_int_minus_divide)
  next
    case False
    then have "e = floor_log2 dd - 52" using dpos by (simp add: e_def)
    then have "(2::rat) powi e \<le> 2 powi (floor_log2 dd - 1)"
      by (intro power_int_increasing) simp_all
    with floor_log2_weak [OF dpos] show ?thesis by simp
  qed
  have "1 \<le> \<bar>dd\<bar> / 2 powi e"
    using le dpos by (simp add: le_divide_eq)
  then have r: "1 \<le> r" unfolding r_def by (rule round_half_even_ge)
  then have pos: "0 < (of_int r :: rat) * 2 powi e" by simp
  have "fl dd = (if (2::rat) ^ 1024 \<le> of_int r * 2 powi e then Infinity
                else Finite (of_int r * 2 powi e))"
    using dpos by (simp add: fl_def Let_def e_def r_def)
  with pos show ?thesis by simp
qed

lemma fl_uminus: "fl (- q) = (case fl q of NaN \<Rightarrow> NaN | NegInfinity \<Rightarrow> Infinity
    | Finite v \<Rightarrow> Finite (- v) | Infinity \<Rightarrow> NegInfinity)"
  by (simp add: fl_def Let_def)

lemma grid_diff:
  assumes "on_grid a" "on_grid b" "a < b"
  shows "1 / 2 ^ 1074 \<le> b - a"
proof -
  from assms obtain k l :: int where a: "a = of_int k / 2 ^ 1074" and b: "b = of_int l / 2 ^ 1074"
    unfolding on_grid_def by blast
  from assms(3) have "(of_int k :: rat) < of_int l"
    unfolding a b by (simp add: divide_less_cancel)
  then have "k < l" by (simp only: of_int_less_iff)
  then have "1 \<le> l - k" by simp
  then have "(of_int 1 :: rat) \<le> of_int (l - k)" by (simp only: of_int_le_iff)
  then have "(1::rat) \<le> of_int l - of_int k" by simp
  then have "(1::rat) / 2 ^ 1074 \<le> (of_int l - of_int k) / 2 ^ 1074"
    by (simp add: divide_le_cancel)
  then show ?thesis unfolding a b by (simp add: diff_divide_distrib)
qed

lemma fl_diff_less:
  assumes "on_grid a" "on_grid b" "a < b"
  shows "SortCompare (fl (a - b)) < 0" and "0 < SortCompare (fl (b - a))"
proof -
  from fl_pos [OF grid_diff [OF assms]]
  have p: "fl (b - a) = Infinity \<or> (\<exists>v. 0 < v \<and> fl (b - a) = Finite v)" .
  then show "0 < SortCompare (fl (b - a))" by auto
  have "fl (a - b) = fl (- (b - a))" by simp
  with p show "SortCompare (fl (a - b)) < 0"
    by (auto simp only: fl_uminus double.case SortCompare.simps)
qed

lemma fl_zero: "fl 0 = Finite 0"
  by (simp add: fl_def)

lemma compare_le:
  assumes "key_ok x" "key_ok y"
  shows "SortCompare (Number_subtract x y) \<le> 0 \<longleftrightarrow> double_le x y"
proof (cases x; cases y)
  fix a b assume xy: "x = Finite a" "y = Finite b"
  with assms have g: "on_grid a" "on_grid b" by (simp_all add: key_ok_def)
  consider "a < b" | "a = b" | "b < a" by linarith
  then show ?thesis
  proof cases
    case 1
    with fl_diff_less(1) [OF g 1] xy show ?thesis by simp
  next
    case 2
    with xy show ?thesis by (simp add: fl_zero)
  next
    case 3
    with fl_diff_less(2) [OF g(2,1) 3] xy show ?thesis by simp
  qed
qed (use assms in \<open>simp_all add: key_ok_def\<close>)

lemma compare_zero:
  assumes "key_ok x" "key_ok y"
  shows "SortCompare (Number_subtract x y) = 0 \<longleftrightarrow> x = y"
proof (cases x; cases y)
  fix a b assume xy: "x = Finite a" "y = Finite b"
  with assms have g: "on_grid a" "on_grid b" by (simp_all add: key_ok_def)
  consider "a < b" | "a = b" | "b < a" by linarith
  then show ?thesis
  proof cases
    case 1
    with fl_diff_less(1) [OF g 1] xy show ?thesis by simp
  next
    case 2
    with xy show ?thesis by (simp add: fl_zero)
  next
    case 3
    with fl_diff_less(2) [OF g(2,1) 3] xy show ?thesis by simp
  qed
qed (use assms in \<open>simp_all add: key_ok_def\<close>)

lemma compare_less:
  assumes "key_ok x" "key_ok y"
  shows "SortCompare (Number_subtract x y) < 0 \<longleftrightarrow> double_le x y \<and> x \<noteq> y"
  using compare_le [OF assms] compare_zero [OF assms] by auto

lemma compare_greater:
  assumes "key_ok x" "key_ok y"
  shows "0 < SortCompare (Number_subtract x y) \<longleftrightarrow> \<not> double_le x y"
  using compare_le [OF assms] by auto

lemma double_le_trans: "double_le x y \<Longrightarrow> double_le y z \<Longrightarrow> double_le x z"
  by (cases x; cases y; cases z) simp_all

lemma double_le_total: "x \<noteq> NaN \<Longrightarrow> y \<noteq> NaN \<Longrightarrow> double_le x y \<or> double_le y x"
  by (cases x; cases y) auto

lemma double_le_antisym: "double_le x y \<Longrightarrow> double_le y x \<Longrightarrow> x = y"
  by (cases x; cases y) simp_all

lemma double_le_refl: "x \<noteq> NaN \<Longrightarrow> double_le x x"
  by (cases x) simp_all

lemma key_ok_fl: "key_ok (fl q)"
proof (cases "fl q")
  case NaN
  then show ?thesis by (simp add: fl_def Let_def split: if_splits)
next
  case (Finite v)
  with fl_grid [OF Finite] show ?thesis by (simp add: key_ok_def)
qed (simp_all add: key_ok_def)

lemma on_grid_zero: "on_grid 0"
  unfolding on_grid_def by (rule exI [of _ 0]) simp

lemma key_ok_load: "cpuLoadPercent n \<noteq> NaN \<Longrightarrow> key_ok (cpuLoadPercent n)"
proof (cases "cpu (stats n)")
  case None
  then show ?thesis by (simp add: cpuLoadPercent_def key_ok_def on_grid_zero)
next
  case (Some c)
  assume nn: "cpuLoadPercent n \<noteq> NaN"
  show ?thesis
  proof (cases "Number_divide (systemLoad c) (cores c)")
    case (Finite a)
    with Some show ?thesis by (simp add: cpuLoadPercent_def key_ok_fl)
  next
    case NaN
    with Some nn show ?thesis by (simp add: cpuLoadPercent_def)
  qed (use Some in \<open>simp_all add: cpuLoadPercent_def key_ok_def\<close>)
qed

lemma key_ok_not_NaN: "key_ok x \<Longrightarrow> x \<noteq> NaN"
  by (auto simp: key_ok_def)

section \<open>Sorting by a key\<close>

lemma mset_Array_insert: "mset (Array_insert cmp x ys) = add_mset x (mset ys)"
  by (induction ys) simp_all

lemma mset_Array_sort: "mset (Array_sort cmp xs) = mset xs"
  by (induction xs) (simp_all add: Array_sort_def mset_Array_insert)

lemma set_Array_insert: "set (Array_insert cmp x ys) = insert x (set ys)"
  using mset_Array_insert [of cmp x ys, THEN arg_cong, of set_mset] by simp

lemma set_Array_sort: "set (Array_sort cmp xs) = set xs"
  using mset_Array_sort [of cmp xs, THEN arg_cong, of set_mset] by simp

lemma sorted_Array_insert:
  assumes "key_ok (f x)" and "\<forall>y\<in>set ys. key_ok (f y)" and "sorted_wrt (key_le f) ys"
  shows "sorted_wrt (key_le f) (Array_insert (key_compare f) x ys)"
  using assms(2,3)
proof (induction ys)
  case Nil
  then show ?case by simp
next
  case (Cons y ys)
  from Cons.prems have ky: "key_ok (f y)" and kys: "\<forall>z\<in>set ys. key_ok (f z)"
    and yle: "\<forall>z\<in>set ys. key_le f y z" and srt: "sorted_wrt (key_le f) ys"
    by simp_all
  show ?case
  proof (cases "key_compare f x y \<le> 0")
    case True
    with compare_le [OF assms(1) ky] have xy: "key_le f x y"
      by (simp add: key_compare_def key_le_def)
    with yle have "\<forall>z\<in>set ys. key_le f x z"
      unfolding key_le_def by (blast intro: double_le_trans)
    with True xy yle srt show ?thesis by simp
  next
    case False
    with compare_le [OF assms(1) ky] have "\<not> double_le (f x) (f y)"
      by (simp add: key_compare_def)
    with double_le_total [OF key_ok_not_NaN [OF assms(1)] key_ok_not_NaN [OF ky]]
    have "key_le f y x" by (auto simp: key_le_def)
    with False yle Cons.IH [OF kys srt] show ?thesis
      by (simp add: set_Array_insert)
  qed
qed

lemma sorted_Array_sort:
  "\<forall>x\<in>set xs. key_ok (f x) \<Longrightarrow> sorted_wrt (key_le f) (Array_sort (key_compare f) xs)"
proof (induction xs)
  case Nil
  then show ?case by (simp add: Array_sort_def)
next
  case (Cons x xs)
  then have "sorted_wrt (key_le f) (Array_sort (key_compare f) xs)" by simp
  moreover from Cons.prems have "\<forall>y\<in>set (Array_sort (key_compare f) xs). key_ok (f y)"
    by (simp add: set_Array_sort)
  moreover from Cons.prems have "key_ok (f x)" by simp
  ultimately have "sorted_wrt (key_le f)
      (Array_insert (key_compare f) x (Array_sort (key_compare f) xs))"
    by (intro sorted_Array_insert)
  then show ?case by (simp add: Array_sort_def)
qed

lemma consistent_keys:
  assumes "\<forall>x\<in>set xs. key_ok (f x)"
  shows "consistent (key_compare f) xs"
  unfolding consistent_def list_all_iff
proof (intro ballI conjI impI)
  fix a assume "a \<in> set xs"
  with assms have ka: "key_ok (f a)" by simp
  from compare_zero [OF ka ka] show "key_compare f a a = 0"
    by (simp add: key_compare_def)
  fix b assume "b \<in> set xs"
  with assms have kb: "key_ok (f b)" by simp
  show "key_compare f b a = 0" if "key_compare f a b = 0"
    using that compare_zero [OF ka kb] compare_zero [OF kb ka]
    by (simp add: key_compare_def)
  fix c assume "c \<in> set xs"
  with assms have kc: "key_ok (f c)" by simp
  show "key_compare f a c = 0" if "key_compare f a b = 0 \<and> key_compare f b c = 0"
    using that compare_zero [OF ka kb] compare_zero [OF kb kc] compare_zero [OF ka kc]
    by (simp add: key_compare_def)
  show "key_compare f a c < 0" if "key_compare f a b < 0 \<and> key_compare f b c < 0"
    using that compare_less [OF ka kb] compare_less [OF kb kc] compare_less [OF ka kc]
    by (auto simp: key_compare_def dest: double_le_trans double_le_antisym)
  show "0 < key_compare f a c" if "0 < key_compare f a b \<and> 0 < key_compare f b c"
  proof -
    from that compare_greater [OF ka kb] compare_greater [OF kb kc]
    have "\<not> double_le (f a) (f b)" "\<not> double_le (f b) (f c)"
      by (simp_all add: key_compare_def)
    with double_le_total [OF key_ok_not_NaN [OF ka] key_ok_not_NaN [OF kb]]
      double_le_total [OF key_ok_not_NaN [OF kb] key_ok_not_NaN [OF kc]]
    have "double_le (f b) (f a)" "double_le (f c) (f b)" by auto
    then have "\<not> double_le (f a) (f c)"
      using \<open>\<not> double_le (f a) (f b)\<close> by (blast intro: double_le_trans)
    with compare_greater [OF ka kc] show ?thesis by (simp add: key_compare_def)
  qed
qed

section \<open>Node selection\<close>

lemma getNodeByRegion_unfold:
  "getNodeByRegion env reg s =
     (if consistent (key_compare cpuLoadPercent) (region_matches env reg s)
      then Array_sort (key_compare cpuLoadPercent) (region_matches env reg s)
      else sort_inconsistent env (key_compare cpuLoadPercent) (region_matches env reg s))"
proof -
  have cmp: "key_compare cpuLoadPercent =
      (\<lambda>a b. SortCompare
          (Number_subtract
            (case cpu (stats a) of
               Some c \<Rightarrow> Number_multiply (Number_divide (systemLoad c) (cores c)) 100
             | None \<Rightarrow> Finite 0)
            (case cpu (stats b) of
               Some c \<Rightarrow> Number_multiply (Number_divide (systemLoad c) (cores c)) 100
             | None \<Rightarrow> Finite 0)))"
    by (intro ext) (simp add: cpuLoadPercent_def key_compare_def)
  have flt: "filter (\<lambda>node. isConnected node \<and>
             (case regions node of None \<Rightarrow> False | Some rs \<Rightarrow> toLowerCase env reg \<in> set rs))
             (Map_values (nodes s)) = region_matches env reg s"
    by (simp add: region_matches_def region_match_def [abs_def])
  show ?thesis
    unfolding getNodeByRegion_def Array_sort_nodes_def flt cmp by (simp add: Let_def)
qed

lemma getNodeByRegion_comparable:
  assumes "loads_comparable env reg s"
  shows "getNodeByRegion env reg s
           = Array_sort (key_compare cpuLoadPercent) (region_matches env reg s)"
    and "\<forall>n\<in>set (region_matches env reg s). key_ok (cpuLoadPercent n)"
proof -
  from assms show k: "\<forall>n\<in>set (region_matches env reg s). key_ok (cpuLoadPercent n)"
    by (auto simp: loads_comparable_def list_all_iff intro: key_ok_load)
  from consistent_keys [OF k] show "getNodeByRegion env reg s
           = Array_sort (key_compare cpuLoadPercent) (region_matches env reg s)"
    by (simp add: getNodeByRegion_unfold)
qed

text \<open>
  C6, as the code has it: \<open>getNodeByRegion\<close> returns exactly the connected nodes whose
  region list has the lower-cased request as an entry (the entries are compared as they
  are stored), and none when no node matches. When no matching node has the load
  percentage NaN, the result is in ascending order of \<open>cpuLoadPercent\<close>, the percentage
  computed in double arithmetic; otherwise the order is the engine's.
\<close>

theorem getNodeByRegion_exact_entry:
  "(loads_comparable env reg s \<longrightarrow>
      mset (getNodeByRegion env reg s) = mset (region_matches env reg s)
      \<and> sorted_wrt (\<lambda>a b. double_le (cpuLoadPercent a) (cpuLoadPercent b))
          (getNodeByRegion env reg s))
   \<and> (rearranges env \<longrightarrow>
        mset (getNodeByRegion env reg s) = mset (region_matches env reg s))
   \<and> (region_matches env reg s = [] \<longrightarrow> getNodeByRegion env reg s = [])"
proof (intro conjI impI)
  assume c: "loads_comparable env reg s"
  from getNodeByRegion_comparable [OF c]
  show "mset (getNodeByRegion env reg s) = mset (region_matches env reg s)"
    by (simp add: mset_Array_sort)
  from getNodeByRegion_comparable [OF c] sorted_Array_sort [of _ cpuLoadPercent]
  show "sorted_wrt (\<lambda>a b. double_le (cpuLoadPercent a) (cpuLoadPercent b))
          (getNodeByRegion env reg s)"
    by (simp add: key_le_def [abs_def])
next
  assume "rearranges env"
  then show "mset (getNodeByRegion env reg s) = mset (region_matches env reg s)"
    by (simp add: getNodeByRegion_unfold mset_Array_sort rearranges_def)
next
  assume "region_matches env reg s = []"
  then show "getNodeByRegion env reg s = []"
    by (simp add: getNodeByRegion_unfold consistent_def Array_sort_def)
qed

lemma key_compare_le:
  "key_ok (f x) \<Longrightarrow> key_ok (f y) \<Longrightarrow> key_compare f x y \<le> 0 \<longleftrightarrow> double_le (f x) (f y)"
  using compare_le [of "f x" "f y"] by (simp add: key_compare_def)

lemma load_stalled: "cpuLoadPercent node_stalled = Infinity"
  by (simp add: cpuLoadPercent_def node_stalled_def Number_divide_def)

lemma load_third: "cpuLoadPercent node_third = Finite (2345624805922133 / 70368744177664)"
  by code_simp

lemma load_fresh: "cpuLoadPercent node_fresh = Finite 0"
  by (simp add: cpuLoadPercent_def node_fresh_def)

lemma load_busy: "cpuLoadPercent node_busy = Finite 100"
  by code_simp

lemma load_blank: "cpuLoadPercent node_blank = NaN"
  by (simp add: cpuLoadPercent_def node_blank_def Number_divide_def)

lemma lower_EU: "toLowerCase env ''EU'' = ''eu''" and lower_eu: "toLowerCase env ''eu'' = ''eu''"
  by (simp_all add: toLowerCase_def)

lemma matches_eu_pool:
  "region_matches env ''EU'' (running eu_pool) = [node_stalled, node_third, node_fresh]"
  by (simp add: region_matches_def region_match_def lower_EU running_def eu_pool_def
      Map_values_def node_stalled_def node_third_def node_fresh_def node_us_def node_EU_def)

text \<open>
  C6, an instance: five connected nodes and the request \<open>EU\<close>. The three nodes that list
  \<open>eu\<close> are returned, the one that lists \<open>EU\<close> is not; their percentages are infinite
  (no cores), a rounded third of a hundred, and 0, and they come back in ascending order.
\<close>

theorem getNodeByRegion_exact_entry_witness:
  "loads_comparable idle ''EU'' (running eu_pool)
   \<and> region_matches idle ''EU'' (running eu_pool) = [node_stalled, node_third, node_fresh]
   \<and> map cpuLoadPercent [node_stalled, node_third, node_fresh]
       = [Infinity, Finite (2345624805922133 / 70368744177664), Finite 0]
   \<and> getNodeByRegion idle ''EU'' (running eu_pool) = [node_fresh, node_third, node_stalled]
   \<and> sorted_wrt (\<lambda>a b. double_le (cpuLoadPercent a) (cpuLoadPercent b))
        (getNodeByRegion idle ''EU'' (running eu_pool))"
proof -
  have c: "loads_comparable idle ''EU'' (running eu_pool)"
    by (simp add: loads_comparable_def matches_eu_pool load_stalled load_third load_fresh)
  have k: "key_ok (cpuLoadPercent node_stalled)" "key_ok (cpuLoadPercent node_third)"
    "key_ok (cpuLoadPercent node_fresh)"
    by (rule key_ok_load, simp add: load_stalled load_third load_fresh)+
  have o: "\<not> key_compare cpuLoadPercent node_third node_fresh \<le> 0"
    "\<not> key_compare cpuLoadPercent node_stalled node_fresh \<le> 0"
    "\<not> key_compare cpuLoadPercent node_stalled node_third \<le> 0"
    using key_compare_le [of cpuLoadPercent node_third node_fresh, OF k(2) k(3)]
      key_compare_le [of cpuLoadPercent node_stalled node_fresh, OF k(1) k(3)]
      key_compare_le [of cpuLoadPercent node_stalled node_third, OF k(1) k(2)]
    by (simp_all add: load_stalled load_third load_fresh)
  from getNodeByRegion_comparable(1) [OF c]
  have v: "getNodeByRegion idle ''EU'' (running eu_pool) = [node_fresh, node_third, node_stalled]"
    by (simp add: matches_eu_pool Array_sort_def o)
  from getNodeByRegion_exact_entry [of idle "''EU''" "running eu_pool"] c
  have "sorted_wrt (\<lambda>a b. double_le (cpuLoadPercent a) (cpuLoadPercent b))
          (getNodeByRegion idle ''EU'' (running eu_pool))"
    by blast
  with c v show ?thesis
    by (simp add: matches_eu_pool load_stalled load_third load_fresh)
qed

text \<open>
  C6, as stated, fails twice. A connected node whose region list holds \<open>EU\<close> contains
  the region \<open>eu\<close> case-insensitively, and \<open>getNodeByRegion ''eu''\<close> does not return it.
  And two matching nodes with the percentages 100 and NaN (no load on no cores) are
  returned in the order of the registry, whichever it is: in one of the two orders the
  result is not ascending, wherever NaN is placed.
\<close>

theorem getNodeByRegion_upper_case_entry:
  "isConnected node_EU \<and> contains_ci idle (regions node_EU) ''eu''
   \<and> getNodeByRegion idle ''eu'' (running [(''eu-1'', node_EU)]) = []
   \<and> cpuLoadPercent node_busy = Finite 100 \<and> cpuLoadPercent node_blank = NaN
   \<and> getNodeByRegion idle ''eu'' (running [(''eu-6'', node_busy), (''eu-7'', node_blank)])
       = [node_busy, node_blank]
   \<and> getNodeByRegion idle ''eu'' (running [(''eu-7'', node_blank), (''eu-6'', node_busy)])
       = [node_blank, node_busy]"
proof -
  have a: "isConnected node_EU" "contains_ci idle (regions node_EU) ''eu''"
    by (simp_all add: node_EU_def contains_ci_def lower_EU lower_eu)
  have b: "getNodeByRegion idle ''eu'' (running [(''eu-1'', node_EU)]) = []"
    by (simp add: getNodeByRegion_unfold region_matches_def region_match_def lower_eu
        running_def Map_values_def node_EU_def consistent_def Array_sort_def)
  have m1: "region_matches idle ''eu'' (running [(''eu-6'', node_busy), (''eu-7'', node_blank)])
            = [node_busy, node_blank]"
    and m2: "region_matches idle ''eu'' (running [(''eu-7'', node_blank), (''eu-6'', node_busy)])
            = [node_blank, node_busy]"
    by (simp_all add: region_matches_def region_match_def lower_eu running_def Map_values_def
        node_busy_def node_blank_def)
  have z: "fl 0 = Finite 0" by (simp add: fl_def)
  have c1: "getNodeByRegion idle ''eu''
              (running [(''eu-6'', node_busy), (''eu-7'', node_blank)]) = [node_busy, node_blank]"
    by (simp add: getNodeByRegion_unfold m1 consistent_def key_compare_def load_busy load_blank
        Array_sort_def z)
  have c2: "getNodeByRegion idle ''eu''
              (running [(''eu-7'', node_blank), (''eu-6'', node_busy)]) = [node_blank, node_busy]"
    by (simp add: getNodeByRegion_unfold m2 consistent_def key_compare_def load_busy load_blank
        Array_sort_def z)
  from a b c1 c2 load_busy load_blank show ?thesis by blast
qed

text \<open>
  C5: with two connected nodes registered, \<open>getNode\<close> called with \<open>auto\<close> returns the
  whole array \<open>leastUsedNodes\<close>, not its first element.
\<close>

theorem getNode_auto_returns_array:
  "getNode env (Some ''auto'') (running [(''us-1'', node_us), (''eu-1'', node_EU)])
     = (Inr (Nodes [node_EU, node_us]), running [(''us-1'', node_us), (''eu-1'', node_EU)])"
  by (simp add: getNode_def running_def Map_size_def leastUsedNodes_def Map_values_def
      Array_sort_def node_us_def node_EU_def)

section \<open>Calls and sequencing\<close>

lemma call_Inl: "call f s = (Inl e, s') \<Longrightarrow> \<exists>m. e = External m"
  by (auto simp: call_def split: prod.splits sum.splits)

lemma call_Inr: "call f s = (Inr r, s') \<longleftrightarrow> f s = (Inr r, s')"
  by (auto simp: call_def split: prod.splits sum.splits)

lemma call_snd: "snd (call f s) = snd (f s)"
  by (auto simp: call_def split: prod.splits sum.splits)

lemma then_do_Inr:
  "then_do r f = (Inr b, s') \<longleftrightarrow> (\<exists>a s1. r = (Inr a, s1) \<and> f a s1 = (Inr b, s'))"
  by (cases r) (auto simp: then_do_def split: sum.splits)

lemma then_do_Inl:
  "then_do r f = (Inl e, s') \<longleftrightarrow>
     r = (Inl e, s') \<or> (\<exists>a s1. r = (Inr a, s1) \<and> f a s1 = (Inl e, s'))"
  by (cases r) (auto simp: then_do_def split: sum.splits)

section \<open>Player registry\<close>

lemma createPlayer_Inr:
  assumes "createPlayer env n opts s = (Inr p, s')"
  shows "Player_connect env p opts
           (s\<lparr>constructed := Suc (constructed s),
              players := Map_set (guildId opts) p (players s)\<rparr>) = (Inr (), s')"
  using assms
  by (auto simp: createPlayer_def Let_def then_do_Inr call_Inr split: if_splits)

lemma createConnection_Inr:
  assumes "createConnection env opts s = (Inr p, s')"
  shows "isActivated s \<and>
         ((Map_get (guildId opts) (players s) = Some p \<and> s' = s) \<or>
          (Map_get (guildId opts) (players s) = None
           \<and> (\<exists>n. createPlayer env n opts s = (Inr p, s'))))"
  using assms unfolding createConnection_def
  by (auto split: if_splits option.splits sum.splits list.splits)

lemma keeps_registry_idle: "keeps_registry idle"
  by (simp add: keeps_registry_def idle_def)

lemma createConnection_sample:
  "createConnection idle join_any (running [(''us-1'', node_us)]) = (Inr first_player, joined)"
  by (simp add: createConnection_def createPlayer_def running_def join_any_def Map_get_def
      leastUsedNodes_def Map_values_def Array_sort_def node_us_def plain_options_def
      first_player_def joined_def idle_def call_def then_do_def Let_def)

text \<open>
  C1: an activated instance with one connected node, which serves the region \<open>us\<close>, and
  no Player for the session key. A request for the region \<open>eu\<close> finds no regional match,
  a least-used node exists, and \<open>createConnection\<close> throws a TypeError instead of
  falling back to that node.
\<close>

theorem createConnection_region_miss_throws:
  "isActivated (running [(''us-1'', node_us)])
   \<and> get (guildId join_eu) (running [(''us-1'', node_us)]) = None
   \<and> leastUsedNodes (running [(''us-1'', node_us)]) = [node_us]
   \<and> getNodeByRegion env ''eu'' (running [(''us-1'', node_us)]) = []
   \<and> createConnection env join_eu (running [(''us-1'', node_us)])
       = (Inl (TypeError ''name''), running [(''us-1'', node_us)])"
  by (simp add: createConnection_def running_def join_eu_def get_def Map_get_def
      leastUsedNodes_def getNodeByRegion_def Array_sort_nodes_def consistent_def
      Map_values_def Array_sort_def node_us_def toLowerCase_def)

text \<open>
  C7: when \<open>createConnection\<close> has returned a Player, the next call with the same session
  key returns that Player and leaves the instance as it is: nothing is constructed and
  no collaborator is called. The Player's \<open>connect\<close> is taken to leave the player
  registry and the activation flag alone.
\<close>

theorem createConnection_twice:
  assumes "keeps_registry env"
    and "createConnection env opts s = (Inr p, s1)"
    and "guildId opts' = guildId opts"
  shows "createConnection env opts' s1 = (Inr p, s1)"
proof -
  from createConnection_Inr [OF assms(2)]
  have act: "isActivated s"
    and cases: "(Map_get (guildId opts) (players s) = Some p \<and> s1 = s) \<or>
          (Map_get (guildId opts) (players s) = None
           \<and> (\<exists>n. createPlayer env n opts s = (Inr p, s1)))"
    by auto
  from cases have "isActivated s1 \<and> Map_get (guildId opts) (players s1) = Some p"
  proof
    assume "Map_get (guildId opts) (players s) = Some p \<and> s1 = s"
    with act show ?thesis by simp
  next
    assume "Map_get (guildId opts) (players s) = None
            \<and> (\<exists>n. createPlayer env n opts s = (Inr p, s1))"
    then obtain n where cp: "createPlayer env n opts s = (Inr p, s1)" by blast
    let ?s2 = "s\<lparr>constructed := Suc (constructed s),
                 players := Map_set (guildId opts) p (players s)\<rparr>"
    from cp have pc: "Player_connect env p opts ?s2 = (Inr (), s1)"
      by (rule createPlayer_Inr)
    from assms(1) have "players (snd (Player_connect env p opts ?s2)) = players ?s2"
      and "isActivated (snd (Player_connect env p opts ?s2)) = isActivated ?s2"
      unfolding keeps_registry_def by blast+
    with pc act show ?thesis by (simp add: Map_get_set)
  qed
  with assms(3) show ?thesis by (simp add: createConnection_def)
qed

text \<open>
  C7, an instance: the first call creates the Player on the only node; the second call,
  for the same guild and with a region that no node serves, returns the same Player.
\<close>

theorem createConnection_twice_witness:
  "keeps_registry idle
   \<and> createConnection idle join_any (running [(''us-1'', node_us)]) = (Inr first_player, joined)
   \<and> guildId join_eu = guildId join_any
   \<and> createConnection idle join_eu joined = (Inr first_player, joined)"
proof -
  have g: "guildId join_eu = guildId join_any"
    by (simp add: join_eu_def join_any_def)
  from createConnection_twice [OF keeps_registry_idle createConnection_sample g]
  show ?thesis
    using keeps_registry_idle createConnection_sample g by blast
qed

text \<open>
  C10: when no Player exists for the session key and \<open>createConnection\<close> returns one, the
  Player's \<open>connect\<close> was invoked on an instance whose registry already held that Player
  under the key, whatever \<open>connect\<close> does; and if \<open>connect\<close> leaves the registry alone,
  \<open>get\<close> returns that Player once the call has returned.
\<close>

theorem createConnection_registers_first:
  assumes "get (guildId opts) s = None"
    and "createConnection env opts s = (Inr p, s')"
  shows "(\<exists>s2. players s2 = Map_set (guildId opts) p (players s)
             \<and> get (guildId opts) s2 = Some p
             \<and> Player_connect env p opts s2 = (Inr (), s'))
       \<and> (keeps_registry env \<longrightarrow> get (guildId opts) s' = Some p)"
proof -
  from createConnection_Inr [OF assms(2)] assms(1)
  obtain n where cp: "createPlayer env n opts s = (Inr p, s')"
    by (auto simp: get_def)
  define s2 where "s2 = s\<lparr>constructed := Suc (constructed s),
                           players := Map_set (guildId opts) p (players s)\<rparr>"
  from createPlayer_Inr [OF cp]
  have s2: "Map_get (guildId opts) (players s2) = Some p"
    "Player_connect env p opts s2 = (Inr (), s')"
    "players s2 = Map_set (guildId opts) p (players s)"
    by (simp_all add: s2_def Map_get_set)
  have "keeps_registry env \<Longrightarrow> get (guildId opts) s' = Some p"
  proof -
    assume "keeps_registry env"
    then have "players (snd (Player_connect env p opts s2)) = players s2"
      unfolding keeps_registry_def by blast
    with s2 show ?thesis by (simp add: get_def)
  qed
  with s2 show ?thesis by (auto simp: get_def)
qed

text \<open>C10, an instance: the Player created for \<open>guild-1\<close> is the one \<open>get\<close> returns.\<close>

theorem createConnection_registers_first_witness:
  "get (guildId join_any) (running [(''us-1'', node_us)]) = None
   \<and> createConnection idle join_any (running [(''us-1'', node_us)]) = (Inr first_player, joined)
   \<and> keeps_registry idle
   \<and> get (guildId join_any) joined = Some first_player"
proof -
  have h: "get (guildId join_any) (running [(''us-1'', node_us)]) = None"
    by (simp add: get_def running_def Map_get_def)
  from createConnection_registers_first [OF h createConnection_sample] keeps_registry_idle
  have "get (guildId join_any) joined = Some first_player" by blast
  with h createConnection_sample keeps_registry_idle show ?thesis by blast
qed

section \<open>The activation guard\<close>

text \<open>
  C4, as the code has it: \<open>createConnection\<close> and \<open>resolve\<close> fail with NotActivated
  exactly when the instance is not activated. No other call tests the flag: \<open>getNode\<close>,
  \<open>addNode\<close>, \<open>removeNode\<close>, \<open>removeConnection\<close>, \<open>decodeTrack\<close> and \<open>decodeTracks\<close>
  never fail with NotActivated, and \<open>getNodeByRegion\<close> returns the same nodes whatever
  the flag is.
\<close>

theorem activation_gate:
  "(fst (createConnection env opts s) = Inl NotActivated \<longleftrightarrow> \<not> isActivated s)
   \<and> (fst (resolve env ropts node_arg s) = Inl NotActivated \<longleftrightarrow> \<not> isActivated s)
   \<and> fst (getNode env ident_arg s) \<noteq> Inl NotActivated
   \<and> fst (addNode env descr s) \<noteq> Inl NotActivated
   \<and> fst (removeNode env node_name s) \<noteq> Inl NotActivated
   \<and> fst (removeConnection env g s) \<noteq> Inl NotActivated
   \<and> fst (decodeTrack env track node_arg' s) \<noteq> Inl NotActivated
   \<and> fst (decodeTracks env tracks node_arg'' s) \<noteq> Inl NotActivated
   \<and> getNodeByRegion env reg (s\<lparr>isActivated := b\<rparr>) = getNodeByRegion env reg s"
proof -
  have c: "fst (createConnection env opts s) \<noteq> Inl NotActivated" if a: "isActivated s"
  proof
    assume "fst (createConnection env opts s) = Inl NotActivated"
    then obtain s' where "createConnection env opts s = (Inl NotActivated, s')"
      by (cases "createConnection env opts s") auto
    with a show False
      unfolding createConnection_def createPlayer_def Let_def
      by (auto split: if_splits option.splits sum.splits list.splits
          simp: then_do_Inl dest: call_Inl)
  qed
  have r: "fst (resolve env ropts node_arg s) \<noteq> Inl NotActivated" if a: "isActivated s"
  proof
    assume "fst (resolve env ropts node_arg s) = Inl NotActivated"
    then obtain s' where "resolve env ropts node_arg s = (Inl NotActivated, s')"
      by (cases "resolve env ropts node_arg s") auto
    with a show False
      unfolding resolve_def Let_def
      by (auto split: if_splits option.splits sum.splits list.splits
          simp: then_do_Inl dest: call_Inl)
  qed
  have c': "fst (createConnection env opts s) = Inl NotActivated" if "\<not> isActivated s"
    using that by (simp add: createConnection_def)
  have r': "fst (resolve env ropts node_arg s) = Inl NotActivated" if "\<not> isActivated s"
    using that by (simp add: resolve_def)
  have gn: "fst (getNode env ident_arg s) \<noteq> Inl NotActivated"
  proof
    assume "fst (getNode env ident_arg s) = Inl NotActivated"
    then obtain s' where "getNode env ident_arg s = (Inl NotActivated, s')"
      by (cases "getNode env ident_arg s") auto
    then show False
      unfolding getNode_def Let_def
      by (auto split: if_splits option.splits simp: then_do_Inl dest: call_Inl)
  qed
  have an: "fst (addNode env descr s) \<noteq> Inl NotActivated"
  proof
    assume "fst (addNode env descr s) = Inl NotActivated"
    then obtain s' where "addNode env descr s = (Inl NotActivated, s')"
      by (cases "addNode env descr s") auto
    then show False
      unfolding addNode_def Let_def
      by (auto simp: then_do_Inl dest: call_Inl)
  qed
  have rn: "fst (removeNode env node_name s) \<noteq> Inl NotActivated"
  proof
    assume "fst (removeNode env node_name s) = Inl NotActivated"
    then obtain s' where "removeNode env node_name s = (Inl NotActivated, s')"
      by (cases "removeNode env node_name s") auto
    then show False
      unfolding removeNode_def
      by (auto split: option.splits simp: then_do_Inl dest: call_Inl)
  qed
  have rc: "fst (removeConnection env g s) \<noteq> Inl NotActivated"
  proof
    assume "fst (removeConnection env g s) = Inl NotActivated"
    then obtain s' where "removeConnection env g s = (Inl NotActivated, s')"
      by (cases "removeConnection env g s") auto
    then show False
      unfolding removeConnection_def
      by (auto split: option.splits dest: call_Inl)
  qed
  have dt: "fst (decodeTrack env track node_arg' s) \<noteq> Inl NotActivated"
  proof
    assume "fst (decodeTrack env track node_arg' s) = Inl NotActivated"
    then obtain s' where "decodeTrack env track node_arg' s = (Inl NotActivated, s')"
      by (cases "decodeTrack env track node_arg' s") auto
    then show False
      unfolding decodeTrack_def
      by (auto split: option.splits list.splits dest: call_Inl)
  qed
  have ds: "fst (decodeTracks env tracks node_arg'' s) \<noteq> Inl NotActivated"
  proof
    assume "fst (decodeTracks env tracks node_arg'' s) = Inl NotActivated"
    then obtain s' where "decodeTracks env tracks node_arg'' s = (Inl NotActivated, s')"
      by (cases "decodeTracks env tracks node_arg'' s") auto
    then show False
      unfolding decodeTracks_def
      by (auto split: option.splits dest: call_Inl)
  qed
  have gr: "getNodeByRegion env reg (s\<lparr>isActivated := b\<rparr>) = getNodeByRegion env reg s"
    by (simp add: getNodeByRegion_def)
  from c r c' r' gn an rn rc dt ds gr show ?thesis by blast
qed

text \<open>
  C4, three instances: a freshly constructed instance refuses \<open>createConnection\<close> and
  \<open>resolve\<close> with NotActivated, an activated one with a connected node does not, and an
  instance that was never activated hands out its nodes and decodes a track.
\<close>

theorem activation_gate_witness:
  "\<not> isActivated (constructor bot [] plain_options)
   \<and> fst (createConnection idle join_any (constructor bot [] plain_options)) = Inl NotActivated
   \<and> fst (resolve idle search_request None (constructor bot [] plain_options)) = Inl NotActivated
   \<and> isActivated (running [(''us-1'', node_us)])
   \<and> fst (createConnection idle join_any (running [(''us-1'', node_us)])) \<noteq> Inl NotActivated
   \<and> fst (resolve idle search_request None (running [(''us-1'', node_us)])) \<noteq> Inl NotActivated
   \<and> \<not> isActivated (standby [(''us-1'', node_us)])
   \<and> fst (getNode idle None (standby [(''us-1'', node_us)])) = Inr (Nodes [node_us])
   \<and> fst (getNode idle None (standby [(''us-1'', node_us)])) \<noteq> Inl NotActivated
   \<and> fst (decodeTrack idle ''QAAA'' None (standby [(''us-1'', node_us)]))
       = Inr ''/v3/decodetrack?encodedTrack=QAAA''
   \<and> fst (decodeTrack idle ''QAAA'' None (standby [(''us-1'', node_us)])) \<noteq> Inl NotActivated
   \<and> fst (removeNode idle ''us-1'' (standby [(''us-1'', node_us)])) \<noteq> Inl NotActivated
   \<and> fst (removeConnection idle ''guild-1'' (standby [(''us-1'', node_us)])) \<noteq> Inl NotActivated"
proof -
  have off: "\<not> isActivated (constructor bot [] plain_options)"
    by (simp add: constructor_def)
  have on: "isActivated (running [(''us-1'', node_us)])"
    by (simp add: running_def)
  have sb: "\<not> isActivated (standby [(''us-1'', node_us)])"
    by (simp add: standby_def)
  have gn: "fst (getNode idle None (standby [(''us-1'', node_us)])) = Inr (Nodes [node_us])"
    by (simp add: getNode_def standby_def Map_size_def leastUsedNodes_def Map_values_def
        Array_sort_def node_us_def)
  have dt: "fst (decodeTrack idle ''QAAA'' None (standby [(''us-1'', node_us)]))
       = Inr ''/v3/decodetrack?encodedTrack=QAAA''"
    by (simp add: decodeTrack_def standby_def leastUsedNodes_def Map_values_def
        Array_sort_def node_us_def encodeURIComponent_def unreserved_def idle_def call_def)
  note gate = activation_gate [where env = idle and opts = join_any
      and ropts = search_request and node_arg = None and ident_arg = None
      and descr = local_group and node_name = "''us-1''" and g = "''guild-1''"
      and track = "''QAAA''" and node_arg' = None and tracks = "[]" and node_arg'' = None
      and reg = "''eu''" and b = True]
  from gate [where s = "constructor bot [] plain_options"]
    gate [where s = "running [(''us-1'', node_us)]"]
    gate [where s = "standby [(''us-1'', node_us)]"]
    off on sb gn dt
  show ?thesis by blast
qed

text \<open>
  C4, as stated, fails: on an instance that is not activated, node selection fails with
  NodeRegistryEmpty, not NotActivated, and player removal returns without failing.
\<close>

theorem getNode_not_gated:
  "\<not> isActivated (constructor bot [] plain_options)
   \<and> fst (getNode idle None (constructor bot [] plain_options)) = Inl NodeRegistryEmpty
   \<and> removeConnection idle ''guild-1'' (constructor bot [] plain_options)
        = (Inr (), constructor bot [] plain_options)"
  by (simp add: getNode_def removeConnection_def constructor_def Map_size_def Map_get_def)

section \<open>Packet routing\<close>

text \<open>
  C8: a packet whose kind is neither voice-state-update nor voice-server-update, or whose
  session key has no registered Player, or which is a voice-state-update of another user
  than the instance's own, is dropped: \<open>packetUpdate\<close> returns without an exception
  and the instance is unchanged, whatever the collaborators are; none of them is called.
\<close>

theorem packetUpdate_drops:
  assumes "\<not> (t packet = Some ''VOICE_STATE_UPDATE'' \<or> t packet = Some ''VOICE_SERVER_UPDATE'')
         \<or> (\<exists>pd. d packet = Some pd \<and>
               (packet_player pd s = None
                \<or> (t packet = Some ''VOICE_STATE_UPDATE'' \<and> user_id pd \<noteq> userId s)))"
  shows "packetUpdate env packet s = (Inr (), s)"
proof (cases "t packet = Some ''VOICE_STATE_UPDATE'' \<or> t packet = Some ''VOICE_SERVER_UPDATE''")
  case False
  then show ?thesis by (simp add: packetUpdate_def)
next
  case True
  with assms obtain pd where pd: "d packet = Some pd"
    and miss: "packet_player pd s = None
               \<or> (t packet = Some ''VOICE_STATE_UPDATE'' \<and> user_id pd \<noteq> userId s)"
    by blast
  have pp: "(case guild_id pd of Str g \<Rightarrow> Map_get g (players s) | _ \<Rightarrow> None)
            = packet_player pd s"
    by (simp add: packet_player_def get_def split: jsid.splits)
  show ?thesis
  proof (cases "packet_player pd s")
    case None
    with True pd show ?thesis
      by (simp add: packetUpdate_def pp)
  next
    case (Some player)
    with miss have "t packet = Some ''VOICE_STATE_UPDATE''" and "user_id pd \<noteq> userId s"
      by simp_all
    with pd Some show ?thesis
      by (simp add: packetUpdate_def pp then_do_def)
  qed
qed

text \<open>
  C8, an instance: a Player exists for \<open>guild-1\<close>, and a voice-state-update about another
  user in that guild is dropped.
\<close>

theorem packetUpdate_drops_witness:
  "t stranger_moved = Some ''VOICE_STATE_UPDATE''
   \<and> d stranger_moved
       = Some \<lparr>guild_id = Str ''guild-1'', user_id = Str ''someone-else'', payload = []\<rparr>
   \<and> packet_player \<lparr>guild_id = Str ''guild-1'', user_id = Str ''someone-else'', payload = []\<rparr>
        joined = Some first_player
   \<and> Str ''someone-else'' \<noteq> userId joined
   \<and> packetUpdate idle stranger_moved joined = (Inr (), joined)"
proof -
  let ?pd = "\<lparr>guild_id = Str ''guild-1'', user_id = Str ''someone-else'', payload = []\<rparr>"
  have k: "t stranger_moved = Some ''VOICE_STATE_UPDATE''"
    and pd: "d stranger_moved = Some ?pd"
    by (simp_all add: stranger_moved_def)
  have pl: "packet_player ?pd joined = Some first_player"
    by (simp add: packet_player_def get_def Map_get_def joined_def)
  have u: "Str ''someone-else'' \<noteq> userId joined"
    by (simp add: joined_def)
  have "\<not> (t stranger_moved = Some ''VOICE_STATE_UPDATE''
            \<or> t stranger_moved = Some ''VOICE_SERVER_UPDATE'')
        \<or> (\<exists>pd. d stranger_moved = Some pd \<and>
              (packet_player pd joined = None
               \<or> (t stranger_moved = Some ''VOICE_STATE_UPDATE'' \<and> user_id pd \<noteq> userId joined)))"
    using k pd u by simp
  from packetUpdate_drops [OF this, of idle] k pd pl u show ?thesis by blast
qed

section \<open>Resolve\<close>

text \<open>
  C9, as the code has it: on an activated instance with a node to work with, \<open>resolve\<close>
  issues one load-tracks request to that node, and the identifier of the request,
  percent-decoded, is the query itself when the query begins with \<open>http://\<close> or
  \<open>https://\<close>, and otherwise the source keyword, a colon and the query, where the
  keyword is \<open>ytsearch\<close> when the source is unset or empty.
\<close>

theorem resolve_request_identifier:
  assumes "isActivated s" and "resolve_node node_arg s = Some n"
  shows "\<exists>path.
           resolve env ropts node_arg s =
             then_do (call (rest_get env n path) s)
               (\<lambda>response s1. (Inr \<lparr>loaded = response, requestedBy = requester ropts\<rparr>, s1))
           \<and> loadtracks_identifier path =
               Some (if regex_test (query ropts) then query ropts
                     else source_or_ytsearch (source ropts) @ '':'' @ query ropts)"
proof (cases "regex_test (query ropts)")
  case True
  with assms have "resolve env ropts node_arg s =
      then_do (call (rest_get env n
                 (''/v3/loadtracks?identifier='' @ encodeURIComponent (query ropts))) s)
        (\<lambda>response s1. (Inr \<lparr>loaded = response, requestedBy = requester ropts\<rparr>, s1))"
    by (simp add: resolve_def resolve_node_def)
  with True loadtracks_identifier_encode [of "query ropts"] show ?thesis
    by auto
next
  case False
  let ?track = "source_or_ytsearch (source ropts) @ '':'' @ query ropts"
  from False assms have "resolve env ropts node_arg s =
      then_do (call (rest_get env n
                 (''/v3/loadtracks?identifier='' @ encodeURIComponent ?track)) s)
        (\<lambda>response s1. (Inr \<lparr>loaded = response, requestedBy = requester ropts\<rparr>, s1))"
    by (simp add: resolve_def resolve_node_def source_or_ytsearch_def Let_def)
  with False loadtracks_identifier_encode [of ?track] show ?thesis
    by auto
qed

text \<open>
  C9, an instance: the query \<open>rick astley\<close> with the source \<open>ytsearch\<close>, on an activated
  instance with one connected node.
\<close>

theorem resolve_request_identifier_witness:
  "isActivated (running [(''us-1'', node_us)])
   \<and> resolve_node None (running [(''us-1'', node_us)]) = Some node_us
   \<and> (\<exists>path.
         resolve idle search_request None (running [(''us-1'', node_us)]) =
           then_do (call (rest_get idle node_us path) (running [(''us-1'', node_us)]))
             (\<lambda>response s1. (Inr \<lparr>loaded = response, requestedBy = None\<rparr>, s1))
         \<and> loadtracks_identifier path = Some ''ytsearch:rick astley'')"
proof -
  have a: "isActivated (running [(''us-1'', node_us)])"
    by (simp add: running_def)
  have n: "resolve_node None (running [(''us-1'', node_us)]) = Some node_us"
    by (simp add: resolve_node_def leastUsedNodes_def running_def Map_values_def
        Array_sort_def node_us_def)
  have i: "(if regex_test (query search_request) then query search_request
            else source_or_ytsearch (source search_request) @ '':'' @ query search_request)
           = ''ytsearch:rick astley''"
    by (simp add: search_request_def regex_test_def source_or_ytsearch_def)
  have q: "requester search_request = None"
    by (simp add: search_request_def)
  from resolve_request_identifier [OF a n, of idle search_request]
  show ?thesis
    unfolding i q using a n by blast
qed

text \<open>
  C9, as stated, fails: with the source set to the empty string the request identifier
  decodes to \<open>ytsearch:rick astley\<close>, not to the source, a colon and the query.
\<close>

theorem resolve_empty_source:
  "source empty_source_request = Some []
   \<and> fst (resolve idle empty_source_request None (running [(''us-1'', node_us)]))
       = Inr \<lparr>loaded = ''/v3/loadtracks?identifier=ytsearch%3Arick%20astley'',
              requestedBy = None\<rparr>
   \<and> loadtracks_identifier ''/v3/loadtracks?identifier=ytsearch%3Arick%20astley''
       = Some ''ytsearch:rick astley''
   \<and> source_or_default (source empty_source_request) @ '':'' @ query empty_source_request
       = '':rick astley''"
proof -
  have enc: "encodeURIComponent ''ytsearch:rick astley'' = ''ytsearch%3Arick%20astley''"
    by (simp add: encodeURIComponent_def unreserved_def hexDigit_def)
  have "loadtracks_identifier
          (''/v3/loadtracks?identifier='' @ encodeURIComponent ''ytsearch:rick astley'')
        = Some ''ytsearch:rick astley''"
    by (rule loadtracks_identifier_encode)
  then have dec: "loadtracks_identifier ''/v3/loadtracks?identifier=ytsearch%3Arick%20astley''
                  = Some ''ytsearch:rick astley''"
    by (simp add: enc)
  have res: "fst (resolve idle empty_source_request None (running [(''us-1'', node_us)]))
       = Inr \<lparr>loaded = ''/v3/loadtracks?identifier=ytsearch%3Arick%20astley'',
              requestedBy = None\<rparr>"
    by (simp add: resolve_def empty_source_request_def running_def leastUsedNodes_def
        Map_values_def Array_sort_def node_us_def regex_test_def enc
        idle_def call_def then_do_def Let_def)
  have src: "source empty_source_request = Some []"
    and spec: "source_or_default (source empty_source_request) @ '':''
                 @ query empty_source_request = '':rick astley''"
    by (simp_all add: empty_source_request_def source_or_default_def)
  from src res dec spec show ?thesis by blast
qed

section \<open>Activation\<close>

lemma addNode_Inl: "addNode env g s = (Inl e, s') \<Longrightarrow> \<exists>m. e = External m"
  by (auto simp: addNode_def Let_def then_do_Inl dest: call_Inl)

lemma addNodes_Inl: "addNodes env gs s = (Inl e, s') \<Longrightarrow> \<exists>m. e = External m"
  by (induction gs arbitrary: s) (auto simp: then_do_Inl dest: addNode_Inl)

lemma loadPlugins_activated:
  "keeps_activated env \<Longrightarrow> isActivated s \<Longrightarrow> isActivated (snd (loadPlugins env ps s))"
proof (induction ps arbitrary: s)
  case Nil
  then show ?case by simp
next
  case (Cons p ps)
  from Cons.prems have step: "isActivated (snd (call (Plugin_load env p) s))"
    by (simp add: call_snd keeps_activated_def)
  show ?case
  proof (cases "call (Plugin_load env p) s")
    case (Pair r s1)
    with step have "isActivated s1" by simp
    with Pair Cons.IH [OF Cons.prems(1)] show ?thesis
      by (cases r) (simp_all add: then_do_def)
  qed
qed

lemma init_after_nodes:
  assumes "keeps_activated env"
    and "\<not> isActivated s" and "user c = Some u"
    and "addNodes env (nodeGroups s) (s\<lparr>userId := Str u\<rparr>) = (Inr (), s1)"
  shows "isActivated (snd (init env c s))"
proof -
  let ?s2 = "s1\<lparr>isActivated := True\<rparr>"
  let ?lp = "case plugins (options ?s2) of
               None \<Rightarrow> (Inr (), ?s2)
             | Some ps \<Rightarrow> loadPlugins env ps ?s2"
  have lp: "isActivated (snd ?lp)"
    using loadPlugins_activated [OF assms(1), of ?s2] by (simp split: option.splits)
  obtain r s3 where eq: "?lp = (r, s3)" by (cases ?lp)
  with lp have s3: "isActivated s3" by simp
  from assms(1)
  have on: "\<And>e s. isActivated s \<Longrightarrow> isActivated (snd (call (Client_on env e) s))"
    by (simp add: call_snd keeps_activated_def)
  show ?thesis
  proof (cases r)
    case (Inl e)
    with assms(2-4) eq s3 show ?thesis
      by (simp add: init_def then_do_def Let_def)
  next
    case (Inr x)
    with assms(2-4) eq s3 on show ?thesis
      by (simp add: init_def then_do_def Let_def)
  qed
qed

lemma init_MissingSendFunction:
  assumes "\<not> isActivated s" and "fst (init env c s) = Inl MissingSendFunction"
  shows "\<exists>u s1. user c = Some u
               \<and> addNodes env (nodeGroups s) (s\<lparr>userId := Str u\<rparr>) = (Inr (), s1)"
proof (cases "user c")
  case None
  with assms show ?thesis by (simp add: init_def)
next
  case (Some u)
  obtain r s1 where an: "addNodes env (nodeGroups s) (s\<lparr>userId := Str u\<rparr>) = (r, s1)"
    by (cases "addNodes env (nodeGroups s) (s\<lparr>userId := Str u\<rparr>)")
  show ?thesis
  proof (cases r)
    case (Inl e)
    with an addNodes_Inl obtain m where "e = External m" by blast
    with assms Some an Inl show ?thesis by (simp add: init_def then_do_def)
  next
    case (Inr x)
    with Some an show ?thesis by simp
  qed
qed

lemma keeps_activated_idle: "keeps_activated idle"
  by (simp add: keeps_activated_def idle_def)

text \<open>
  C2, as the code has it, for an instance that is not activated. If the identity cannot
  be read or a node fails to build, \<open>init\<close> ends there and leaves the instance as that
  step left it, the flag not set. Once the nodes are built \<open>init\<close> sets the flag, and
  the plugins are loaded on the instance with the flag set: if a plugin fails there,
  \<open>init\<close> fails with it, and if the adapter is \<open>other\<close> and no send function is
  installed, \<open>init\<close> raises MissingSendFunction on the instance the plugins left. So
  the instance is activated after \<open>init\<close> whenever node construction succeeded, and in
  particular when \<open>init\<close> raises MissingSendFunction, provided plugins and host client
  leave a set flag set.
\<close>

theorem init_sets_flag_after_nodes:
  assumes "\<not> isActivated s"
  shows "(user c = None \<longrightarrow> init env c s = (Inl (TypeError ''id''), s))
       \<and> (\<forall>u e s1. user c = Some u
              \<and> addNodes env (nodeGroups s) (s\<lparr>userId := Str u\<rparr>) = (Inl e, s1)
              \<longrightarrow> init env c s = (Inl e, s1))
       \<and> (\<forall>u s1 e s3. user c = Some u
              \<and> addNodes env (nodeGroups s) (s\<lparr>userId := Str u\<rparr>) = (Inr (), s1)
              \<and> load_configured env (s1\<lparr>isActivated := True\<rparr>) = (Inl e, s3)
              \<longrightarrow> init env c s = (Inl e, s3))
       \<and> (\<forall>u s1 s3. user c = Some u
              \<and> addNodes env (nodeGroups s) (s\<lparr>userId := Str u\<rparr>) = (Inr (), s1)
              \<and> load_configured env (s1\<lparr>isActivated := True\<rparr>) = (Inr (), s3)
              \<and> library (options s3) = Some ''other'' \<and> send s3 = None
              \<longrightarrow> init env c s = (Inl MissingSendFunction, s3))
       \<and> (keeps_activated env \<longrightarrow>
            (fst (init env c s) = Inl MissingSendFunction \<longrightarrow> isActivated (snd (init env c s)))
            \<and> (\<forall>u s1. user c = Some u
                  \<and> addNodes env (nodeGroups s) (s\<lparr>userId := Str u\<rparr>) = (Inr (), s1)
                  \<longrightarrow> isActivated (snd (init env c s))))"
proof (intro conjI impI allI)
  show "init env c s = (Inl (TypeError ''id''), s)" if "user c = None"
    using that assms by (simp add: init_def)
  show "init env c s = (Inl e, s1)"
    if "user c = Some u \<and> addNodes env (nodeGroups s) (s\<lparr>userId := Str u\<rparr>) = (Inl e, s1)"
    for u e s1
    using that assms by (simp add: init_def then_do_def)
  show "init env c s = (Inl e, s3)"
    if "user c = Some u
        \<and> addNodes env (nodeGroups s) (s\<lparr>userId := Str u\<rparr>) = (Inr (), s1)
        \<and> load_configured env (s1\<lparr>isActivated := True\<rparr>) = (Inl e, s3)"
    for u s1 e s3
    using that assms by (simp add: init_def then_do_def load_configured_def Let_def)
  show "init env c s = (Inl MissingSendFunction, s3)"
    if "user c = Some u
        \<and> addNodes env (nodeGroups s) (s\<lparr>userId := Str u\<rparr>) = (Inr (), s1)
        \<and> load_configured env (s1\<lparr>isActivated := True\<rparr>) = (Inr (), s3)
        \<and> library (options s3) = Some ''other'' \<and> send s3 = None"
    for u s1 s3
    using that assms by (simp add: init_def then_do_def load_configured_def Let_def)
  show "isActivated (snd (init env c s))"
    if "keeps_activated env" and "fst (init env c s) = Inl MissingSendFunction"
    using init_after_nodes [OF that(1) assms] init_MissingSendFunction [OF assms that(2)]
    by blast
  show "isActivated (snd (init env c s))"
    if "keeps_activated env"
      and "user c = Some u \<and> addNodes env (nodeGroups s) (s\<lparr>userId := Str u\<rparr>) = (Inr (), s1)"
    for u s1
    using init_after_nodes [OF that(1) assms] that(2) by blast
qed

lemma addNodes_awaiting:
  "addNodes idle (nodeGroups awaiting) (awaiting\<lparr>userId := Str ''bot''\<rparr>) = (Inr (), built)"
  "addNodes probing (nodeGroups awaiting) (awaiting\<lparr>userId := Str ''bot''\<rparr>) = (Inr (), built)"
  by (simp_all add: awaiting_def built_def constructor_def addNode_def then_do_def call_def
      idle_def probing_def local_group_def Let_def)

text \<open>
  C2, two instances, both with one node to build, one plugin, library \<open>other\<close> and no
  send function. With collaborators that do nothing, \<open>init\<close> builds the node, sets the
  flag, loads the plugin and raises MissingSendFunction, leaving the instance activated.
  With a plugin that refuses to load on an activated instance, \<open>init\<close> fails with the
  plugin's refusal: the plugin saw the flag set.
\<close>

theorem init_sets_flag_after_nodes_witness:
  "\<not> isActivated awaiting
   \<and> user bot = Some ''bot''
   \<and> addNodes idle (nodeGroups awaiting) (awaiting\<lparr>userId := Str ''bot''\<rparr>) = (Inr (), built)
   \<and> load_configured idle (built\<lparr>isActivated := True\<rparr>) = (Inr (), built\<lparr>isActivated := True\<rparr>)
   \<and> init idle bot awaiting = (Inl MissingSendFunction, built\<lparr>isActivated := True\<rparr>)
   \<and> keeps_activated idle
   \<and> isActivated (snd (init idle bot awaiting))
   \<and> load_configured probing (built\<lparr>isActivated := True\<rparr>)
       = (Inl (External ''loaded on an activated instance''), built\<lparr>isActivated := True\<rparr>)
   \<and> init probing bot awaiting
       = (Inl (External ''loaded on an activated instance''), built\<lparr>isActivated := True\<rparr>)"
proof -
  have off: "\<not> isActivated awaiting"
    by (simp add: awaiting_def constructor_def)
  have u: "user bot = Some ''bot''"
    by (simp add: bot_def)
  have l1: "load_configured idle (built\<lparr>isActivated := True\<rparr>)
            = (Inr (), built\<lparr>isActivated := True\<rparr>)"
    by (simp add: load_configured_def built_def other_plugin_options_def then_do_def call_def
        idle_def)
  have l2: "load_configured probing (built\<lparr>isActivated := True\<rparr>)
       = (Inl (External ''loaded on an activated instance''), built\<lparr>isActivated := True\<rparr>)"
    by (simp add: load_configured_def built_def other_plugin_options_def then_do_def call_def
        probing_def idle_def)
  have o: "library (options (built\<lparr>isActivated := True\<rparr>)) = Some ''other''"
    "send (built\<lparr>isActivated := True\<rparr>) = None"
    by (simp_all add: built_def other_plugin_options_def)
  note t1 = init_sets_flag_after_nodes [OF off, of bot idle]
  note t2 = init_sets_flag_after_nodes [OF off, of bot probing]
  from t1 u addNodes_awaiting(1) l1 o
  have i1: "init idle bot awaiting = (Inl MissingSendFunction, built\<lparr>isActivated := True\<rparr>)"
    by blast
  from t2 u addNodes_awaiting(2) l2
  have i2: "init probing bot awaiting
       = (Inl (External ''loaded on an activated instance''), built\<lparr>isActivated := True\<rparr>)"
    by blast
  from t1 keeps_activated_idle i1 have a: "isActivated (snd (init idle bot awaiting))"
    by simp
  from off u addNodes_awaiting(1) l1 i1 keeps_activated_idle a l2 i2 show ?thesis
    by blast
qed

text \<open>
  C2, as stated, fails: activation of an instance configured with library \<open>other\<close> and
  no send function raises MissingSendFunction and leaves the instance activated.
\<close>

theorem init_failure_leaves_activated:
  "\<not> isActivated (constructor bot [] other_bare_options)
   \<and> init idle bot (constructor bot [] other_bare_options)
       = (Inl MissingSendFunction,
          (constructor bot [] other_bare_options)\<lparr>userId := Str ''bot'', isActivated := True\<rparr>)"
  by (simp add: init_def constructor_def other_bare_options_def bot_def then_do_def)

text \<open>
  C3: an instance configured with library \<open>other\<close> and a caller-supplied send function
  in its options. \<open>init\<close> tests \<open>this.send\<close>, which the constructor has set to null, and
  raises MissingSendFunction although the options hold a send function.
\<close>

theorem init_other_ignores_options_send:
  "library (options (constructor bot [] other_options)) = Some ''other''
   \<and> PoruOptions.send (options (constructor bot [] other_options)) = Some ''sendToShard''
   \<and> fst (init env bot (constructor bot [] other_options)) = Inl MissingSendFunction"
  by (simp add: init_def constructor_def other_options_def bot_def then_do_def)

end
